theory Spec2Isabelle
  imports Complex_Main
begin

section \<open>The page canvas underneath the slide composer\<close>

text \<open>
  \<^verbatim>\<open>generate_pdf.py\<close> defines \<^verbatim>\<open>class SlidePDF(FPDF)\<close> and then
  draws ten slides with it. The methods of \<^verbatim>\<open>SlidePDF\<close> are translated below
  statement by statement. They call the drawing primitives of the \<^verbatim>\<open>fpdf\<close>
  package (\<^verbatim>\<open>add_page\<close>, \<^verbatim>\<open>set_font\<close>, \<^verbatim>\<open>set_xy\<close>,
  \<^verbatim>\<open>rect\<close>, \<^verbatim>\<open>ellipse\<close>, \<^verbatim>\<open>cell\<close>, ...), which are not part of
  the repository; this section fixes what those primitives do, as far as the script
  can observe it: the cursor, the current style, the pages, and on every page the
  list of primitive draws issued on it, each with the style it was drawn in
  (immediate-mode drawing).

  Python numbers (the script mixes \<^verbatim>\<open>int\<close> and \<^verbatim>\<open>float\<close>) are exact
  rationals here; rounding of floats is not modelled.
\<close>

datatype error = NoPageOpen | NoFontSet | ValueError

fun bind_res :: "error + 'a \<Rightarrow> ('a \<Rightarrow> error + 'b) \<Rightarrow> error + 'b" where
  "bind_res (Inl e) f = Inl e"
| "bind_res (Inr v) f = f v"

type_synonym color = "nat \<times> nat \<times> nat"

datatype font_family = Helvetica | Courier

datatype font_style = Regular | Bold

text \<open>\<^verbatim>\<open>set_font(family, style, size)\<close>: the script passes the families
  \<^verbatim>\<open>'Helvetica'\<close> and \<^verbatim>\<open>'Courier'\<close>, the styles \<^verbatim>\<open>''\<close>
  (\<open>Regular\<close>) and \<^verbatim>\<open>'B'\<close> (\<open>Bold\<close>), and a size in points.\<close>

datatype font = Font font_family font_style rat

text \<open>The \<^verbatim>\<open>style\<close> argument of \<^verbatim>\<open>rect\<close> and \<^verbatim>\<open>ellipse\<close>:
  \<^verbatim>\<open>'F'\<close> fills, \<^verbatim>\<open>'DF'\<close> draws the outline and fills.\<close>

datatype paint = F | DF

datatype align = AlignL | AlignC | AlignR

text \<open>Where \<^verbatim>\<open>cell\<close> leaves the cursor: to the right of the cell (\<^verbatim>\<open>ln=0\<close>,
  the default), at the left margin of the next line (\<^verbatim>\<open>ln=1\<close>, which
  \<^verbatim>\<open>ln=True\<close> equals), or below the cell (\<^verbatim>\<open>ln=2\<close>, as
  \<^verbatim>\<open>multi_cell\<close> uses).\<close>

datatype ln_mode = ToRight | NextLine | Below

text \<open>A primitive draw as issued: position, size, content and the style current at that
  moment. \<open>Rect x y w h style fill draw\<close>, \<open>Ellipse x y w h style fill draw\<close>,
  \<open>Cell x y w h txt align font text_color\<close>.\<close>

datatype draw =
    Rect rat rat rat rat paint color color
  | Ellipse rat rat rat rat paint color color
  | Cell rat rat rat rat string align font color

record page =
  pg_w :: rat
  pg_h :: rat
  draws :: "draw list"

record canvas =
  page_w :: rat
  page_h :: rat
  l_margin :: rat
  t_margin :: rat
  r_margin :: rat
  b_margin :: rat
  auto_page_break :: bool
  page_break_trigger :: rat
  pages :: "page list"
  cur_x :: rat
  cur_y :: rat
  font :: "font option"
  fill_color :: color
  draw_color :: color
  text_color :: color

text \<open>The scale factor of the unit \<^verbatim>\<open>'mm'\<close>: points per millimetre.\<close>

definition k :: rat where
  "k = 72 / (254 / 10)"

text \<open>Modelled from the spec: the page-format table of the drawing package is not in the
  repository; section 6 of the specification gives the landscape A4 page as 297 x 210
  units. The default margins are the package's documented 1 cm, and a fresh document
  breaks pages automatically with a bottom margin of twice that.\<close>

definition FPDF_init_L_mm_A4 :: canvas where
  "FPDF_init_L_mm_A4 =
     \<lparr> page_w = 297, page_h = 210,
       l_margin = 10, t_margin = 10, r_margin = 10, b_margin = 20,
       auto_page_break = True, page_break_trigger = 210 - 20,
       pages = [], cur_x = 0, cur_y = 0, font = None,
       fill_color = (0, 0, 0), draw_color = (0, 0, 0), text_color = (0, 0, 0) \<rparr>"

definition set_auto_page_break :: "bool \<Rightarrow> rat \<Rightarrow> canvas \<Rightarrow> canvas" where
  "set_auto_page_break auto margin c =
     c\<lparr>auto_page_break := auto, b_margin := margin,
       page_break_trigger := page_h c - margin\<rparr>"

text \<open>\<^verbatim>\<open>add_page()\<close> appends an empty page of the document's size, puts the cursor at
  the top-left margin and keeps font and colours.\<close>

definition add_page :: "canvas \<Rightarrow> canvas" where
  "add_page c =
     c\<lparr>pages := pages c @ [\<lparr>pg_w = page_w c, pg_h = page_h c, draws = []\<rparr>],
       cur_x := l_margin c, cur_y := t_margin c\<rparr>"

definition set_fill_color :: "color \<Rightarrow> canvas \<Rightarrow> canvas" where
  "set_fill_color rgb c = c\<lparr>fill_color := rgb\<rparr>"

definition set_draw_color :: "color \<Rightarrow> canvas \<Rightarrow> canvas" where
  "set_draw_color rgb c = c\<lparr>draw_color := rgb\<rparr>"

definition set_text_color :: "color \<Rightarrow> canvas \<Rightarrow> canvas" where
  "set_text_color rgb c = c\<lparr>text_color := rgb\<rparr>"

definition set_font :: "font_family \<Rightarrow> font_style \<Rightarrow> rat \<Rightarrow> canvas \<Rightarrow> canvas" where
  "set_font fam sty sz c = c\<lparr>font := Some (Font fam sty sz)\<rparr>"

text \<open>\<^verbatim>\<open>set_x\<close> and \<^verbatim>\<open>set_y\<close> measure a negative coordinate from the right
  or bottom edge; \<^verbatim>\<open>set_y\<close> also returns the cursor to the left margin.
  \<^verbatim>\<open>set_xy(x, y)\<close> is \<^verbatim>\<open>set_y(y)\<close> followed by \<^verbatim>\<open>set_x(x)\<close>.\<close>

definition from_edge :: "rat \<Rightarrow> rat \<Rightarrow> rat" where
  "from_edge extent v = (if v \<ge> 0 then v else extent + v)"

definition set_x :: "rat \<Rightarrow> canvas \<Rightarrow> canvas" where
  "set_x x c = c\<lparr>cur_x := from_edge (page_w c) x\<rparr>"

definition set_y :: "rat \<Rightarrow> canvas \<Rightarrow> canvas" where
  "set_y y c = c\<lparr>cur_x := l_margin c, cur_y := from_edge (page_h c) y\<rparr>"

definition set_xy :: "rat \<Rightarrow> rat \<Rightarrow> canvas \<Rightarrow> canvas" where
  "set_xy x y c = set_x x (set_y y c)"

definition get_y :: "canvas \<Rightarrow> rat" where
  "get_y c = cur_y c"

text \<open>Appending a draw to the current (last) page.\<close>

definition emit :: "draw \<Rightarrow> canvas \<Rightarrow> canvas" where
  "emit d c =
     c\<lparr>pages := butlast (pages c) @ [(last (pages c))\<lparr>draws := draws (last (pages c)) @ [d]\<rparr>]\<rparr>"

text \<open>Drawing needs an open page: before the first \<^verbatim>\<open>add_page()\<close> the package
  raises.\<close>

definition rect :: "rat \<Rightarrow> rat \<Rightarrow> rat \<Rightarrow> rat \<Rightarrow> paint \<Rightarrow> canvas \<Rightarrow> error + canvas" where
  "rect x y w h style c =
     (if pages c = [] then Inl NoPageOpen
      else Inr (emit (Rect x y w h style (fill_color c) (draw_color c)) c))"

definition ellipse :: "rat \<Rightarrow> rat \<Rightarrow> rat \<Rightarrow> rat \<Rightarrow> paint \<Rightarrow> canvas \<Rightarrow> error + canvas" where
  "ellipse x y w h style c =
     (if pages c = [] then Inl NoPageOpen
      else Inr (emit (Ellipse x y w h style (fill_color c) (draw_color c)) c))"

text \<open>Glyph widths of a font, in thousandths of the font size (the package's
  \<^verbatim>\<open>cw\<close> tables). They are data of the package and stay a parameter.\<close>

type_synonym metrics = "font_family \<Rightarrow> font_style \<Rightarrow> char \<Rightarrow> nat"

fun string_width :: "metrics \<Rightarrow> font \<Rightarrow> string \<Rightarrow> rat" where
  "string_width cw (Font fam sty sz) s =
     of_nat (sum_list (map (cw fam sty) s)) * (sz / k) / 1000"

declare string_width.simps [simp del]

text \<open>\<^verbatim>\<open>get_string_width(s)\<close> measures in the font that is current when it is
  called, and raises when none has been set.\<close>

definition get_string_width :: "metrics \<Rightarrow> string \<Rightarrow> canvas \<Rightarrow> error + rat" where
  "get_string_width cw s c =
     (case font c of None \<Rightarrow> Inl NoFontSet | Some f \<Rightarrow> Inr (string_width cw f s))"

text \<open>\<^verbatim>\<open>cell(w, h, txt, align=..., ln=...)\<close>, without border and fill as the script
  uses it. With automatic page breaks on, a cell that would cross the trigger starts a
  new page first and keeps its x. A width of 0 extends the cell to the right margin.\<close>

definition cell_width :: "rat \<Rightarrow> rat \<Rightarrow> rat" where
  "cell_width w avail = (if w = 0 then avail else w)"

definition cell :: "rat \<Rightarrow> rat \<Rightarrow> string \<Rightarrow> align \<Rightarrow> ln_mode \<Rightarrow> canvas \<Rightarrow> error + canvas" where
  "cell w h txt al lnm c =
     (if pages c = [] then Inl NoPageOpen
      else case font c of
        None \<Rightarrow> Inl NoFontSet
      | Some f \<Rightarrow>
          let c1 = (if cur_y c + h > page_break_trigger c \<and> auto_page_break c
                    then (add_page c)\<lparr>cur_x := cur_x c\<rparr> else c);
              w1 = cell_width w (page_w c1 - r_margin c1 - cur_x c1);
              c2 = emit (Cell (cur_x c1) (cur_y c1) w1 h txt al f (text_color c1)) c1
          in Inr (case lnm of
                    ToRight \<Rightarrow> c2\<lparr>cur_x := cur_x c2 + w1\<rparr>
                  | NextLine \<Rightarrow> c2\<lparr>cur_x := l_margin c2, cur_y := cur_y c2 + h\<rparr>
                  | Below \<Rightarrow> c2\<lparr>cur_y := cur_y c2 + h\<rparr>))"

text \<open>The line breaking of \<^verbatim>\<open>multi_cell\<close> is the package's and stays a parameter:
  it splits a text into the lines that fit a width in a font. Every line is printed as a
  cell with \<^verbatim>\<open>ln=2\<close>; then the cursor returns to the left margin.\<close>

type_synonym linebreak = "font \<Rightarrow> rat \<Rightarrow> string \<Rightarrow> string list"

fun cells_below :: "rat \<Rightarrow> rat \<Rightarrow> string list \<Rightarrow> canvas \<Rightarrow> error + canvas" where
  "cells_below w h [] c = Inr c"
| "cells_below w h (l # ls) c = bind_res (cell w h l AlignL Below c) (cells_below w h ls)"

definition multi_cell :: "linebreak \<Rightarrow> rat \<Rightarrow> rat \<Rightarrow> string \<Rightarrow> canvas \<Rightarrow> error + canvas" where
  "multi_cell lb w h txt c =
     (if pages c = [] then Inl NoPageOpen
      else case font c of
        None \<Rightarrow> Inl NoFontSet
      | Some f \<Rightarrow>
          let w1 = cell_width w (page_w c - r_margin c - cur_x c)
          in bind_res (cells_below w1 h (lb f w1 txt) c)
               (\<lambda>c'. Inr (c'\<lparr>cur_x := l_margin c'\<rparr>)))"

section \<open>The slide composer: class SlidePDF\<close>

definition SlidePDF_init :: canvas where
  "SlidePDF_init = set_auto_page_break False 0 FPDF_init_L_mm_A4"

definition add_slide :: "color \<Rightarrow> canvas \<Rightarrow> error + canvas" where
  "add_slide bg_color c =
     rect 0 0 297 210 F (set_fill_color bg_color (add_page c))"

text \<open>\<^verbatim>\<open>str(num)\<close> for an integer.\<close>

fun digit_char :: "nat \<Rightarrow> char" where
  "digit_char n = char_of (48 + n)"

function str_nat :: "nat \<Rightarrow> string" where
  "str_nat n = (if n < 10 then [digit_char n] else str_nat (n div 10) @ [digit_char (n mod 10)])"
  by pat_completeness auto
termination
  by (relation "measure id") auto

declare str_nat.simps [simp del]

definition str :: "int \<Rightarrow> string" where
  "str i = (if i < 0 then CHR ''-'' # str_nat (nat (- i)) else str_nat (nat i))"

definition slide_number :: "int \<Rightarrow> canvas \<Rightarrow> error + canvas" where
  "slide_number num c =
     cell 10 10 (str num) AlignR ToRight
       (set_xy 280 195 (set_text_color (150, 150, 150) (set_font Helvetica Regular 10 c)))"

definition title_text :: "string \<Rightarrow> rat \<Rightarrow> rat \<Rightarrow> canvas \<Rightarrow> error + canvas" where
  "title_text text y sz c =
     cell 257 20 text AlignC ToRight
       (set_xy 20 y (set_text_color (255, 107, 107) (set_font Helvetica Bold sz c)))"

definition subtitle_text :: "string \<Rightarrow> rat \<Rightarrow> rat \<Rightarrow> canvas \<Rightarrow> error + canvas" where
  "subtitle_text text y sz c =
     cell 257 10 text AlignC ToRight
       (set_xy 20 y (set_text_color (200, 200, 200) (set_font Helvetica Regular sz c)))"

definition heading :: "string \<Rightarrow> rat \<Rightarrow> canvas \<Rightarrow> error + canvas" where
  "heading text y c =
     cell 257 15 text AlignL ToRight
       (set_xy 20 y (set_text_color (255, 107, 107) (set_font Helvetica Bold 28 c)))"

definition body_text :: "linebreak \<Rightarrow> string \<Rightarrow> rat \<Rightarrow> rat \<Rightarrow> rat \<Rightarrow> canvas \<Rightarrow> error + canvas" where
  "body_text lb text x y sz c =
     multi_cell lb 257 8 text
       (set_xy x y (set_text_color (230, 230, 230) (set_font Helvetica Regular sz c)))"

text \<open>\<^verbatim>\<open>tag\<close> measures the text first and sets the chip's font afterwards; it returns
  the new canvas and the consumed width.\<close>

definition tag :: "metrics \<Rightarrow> string \<Rightarrow> rat \<Rightarrow> rat \<Rightarrow> canvas \<Rightarrow> error + (canvas \<times> rat)" where
  "tag cw text x y c =
     (let c1 = set_draw_color (255, 107, 107) (set_fill_color (80, 40, 40) c)
      in bind_res (get_string_width cw text c1) (\<lambda>sw.
           let w = sw + 12
           in bind_res (rect x y w 10 DF c1) (\<lambda>c2.
                let c3 = set_xy x (y + 2)
                           (set_text_color (255, 150, 150) (set_font Helvetica Regular 9 c2))
                in bind_res (cell w 6 text AlignC ToRight c3) (\<lambda>c4. Inr (c4, w + 5)))))"

text \<open>Python's \<^verbatim>\<open>text.split(sep)\<close>: an empty separator raises
  \<^verbatim>\<open>ValueError\<close>; otherwise the text is cut at every occurrence of the separator
  found scanning from the left, the scan resuming behind each occurrence.
  \<open>split_from sep acc t\<close> is the scan with the current piece \<open>acc\<close> (reversed) and
  the rest \<open>t\<close> of the text.\<close>

function split_from :: "string \<Rightarrow> string \<Rightarrow> string \<Rightarrow> string list" where
  "split_from sep acc [] = [rev acc]"
| "split_from sep acc (ch # cs) =
     (if sep \<noteq> [] \<and> take (length sep) (ch # cs) = sep
      then rev acc # split_from sep [] (drop (length sep) (ch # cs))
      else split_from sep (ch # acc) cs)"
  by pat_completeness auto
termination
  by (relation "measure (\<lambda>(sep, acc, t). length t)") auto

definition py_split :: "string \<Rightarrow> string \<Rightarrow> error + string list" where
  "py_split text sep = (if sep = [] then Inl ValueError else Inr (split_from sep [] text))"

text \<open>\<^verbatim>\<open>bullet(text, x=25, y=None, highlight=None)\<close>. The guards \<^verbatim>\<open>if y:\<close> and
  \<^verbatim>\<open>if highlight:\<close> test truthiness: \<^verbatim>\<open>None\<close>, the number 0 and the empty
  string are false.\<close>

definition bullet ::
  "metrics \<Rightarrow> string \<Rightarrow> rat \<Rightarrow> rat option \<Rightarrow> string option \<Rightarrow> canvas \<Rightarrow> error + canvas" where
  "bullet cw text x y highlight c =
     (let c1 = (case y of None \<Rightarrow> c | Some yv \<Rightarrow> if yv \<noteq> 0 then set_xy x yv c else c);
          c2 = set_fill_color (255, 107, 107) c1
      in bind_res (ellipse x (get_y c2 + 3) 4 4 F c2) (\<lambda>c3.
           let c4 = set_text_color (220, 220, 220)
                      (set_font Helvetica Regular 13 (set_xy (x + 8) (get_y c3) c3));
               plain = cell 0 8 text AlignL NextLine c4
           in bind_res
                (case highlight of
                   None \<Rightarrow> plain
                 | Some hl \<Rightarrow>
                     if hl = [] then plain
                     else bind_res (py_split text hl) (\<lambda>parts.
                       case parts of
                         [p0, p1] \<Rightarrow>
                           bind_res (get_string_width cw p0 c4) (\<lambda>w0.
                           bind_res (cell w0 8 p0 AlignL ToRight c4) (\<lambda>c5.
                           let c6 = set_text_color (254, 202, 87) (set_font Helvetica Bold 13 c5)
                           in bind_res (get_string_width cw hl c6) (\<lambda>wh.
                              bind_res (cell wh 8 hl AlignL ToRight c6) (\<lambda>c7.
                              cell 0 8 p1 AlignL NextLine
                                (set_text_color (220, 220, 220)
                                   (set_font Helvetica Regular 13 c7))))))
                       | _ \<Rightarrow> plain))
                (\<lambda>c8. Inr (set_y (get_y c8 + 2) c8))))"

text \<open>\<^verbatim>\<open>box(x, y, w, h, title, items)\<close>; \<open>box_items\<close> is its
  \<^verbatim>\<open>for item in items\<close> loop.\<close>

fun box_items :: "rat \<Rightarrow> rat \<Rightarrow> string list \<Rightarrow> canvas \<Rightarrow> error + canvas" where
  "box_items x w [] c = Inr c"
| "box_items x w (item # items) c =
     (let c1 = set_fill_color (255, 107, 107) c
      in bind_res (ellipse (x + 8) (get_y c1 + 2) 3 3 F c1) (\<lambda>c2.
         bind_res (cell (w - 20) 6 item AlignL NextLine (set_xy (x + 14) (get_y c2) c2)) (\<lambda>c3.
         box_items x w items (set_y (get_y c3 + 1) c3))))"

definition box ::
  "rat \<Rightarrow> rat \<Rightarrow> rat \<Rightarrow> rat \<Rightarrow> string \<Rightarrow> string list \<Rightarrow> canvas \<Rightarrow> error + canvas" where
  "box x y w h title items c =
     (let c1 = set_draw_color (80, 80, 100) (set_fill_color (40, 40, 60) c)
      in bind_res (rect x y w h DF c1) (\<lambda>c2.
         let c3 = set_xy (x + 5) (y + 5)
                    (set_text_color (72, 219, 251) (set_font Helvetica Bold 14 c2))
         in bind_res (cell (w - 10) 8 title AlignL ToRight c3) (\<lambda>c4.
            box_items x w items
              (set_xy (x + 8) (y + 18)
                 (set_text_color (200, 200, 200) (set_font Helvetica Regular 11 c4))))))"

definition fee_row :: "string \<Rightarrow> string \<Rightarrow> color \<Rightarrow> rat \<Rightarrow> canvas \<Rightarrow> error + canvas" where
  "fee_row label fee color y c =
     bind_res (rect 30 y 237 18 F (set_fill_color (40, 40, 60) c)) (\<lambda>c1.
     let c2 = set_xy 35 (y + 4)
                (set_text_color (180, 180, 180) (set_font Helvetica Regular 14 c1))
     in bind_res (cell 100 10 label AlignL ToRight c2) (\<lambda>c3.
        cell 60 10 fee AlignR ToRight
          (set_xy 200 (y + 3) (set_text_color color (set_font Helvetica Bold 18 c3)))))"

definition stat_box :: "rat \<Rightarrow> rat \<Rightarrow> string \<Rightarrow> string \<Rightarrow> canvas \<Rightarrow> error + canvas" where
  "stat_box x y number label c =
     bind_res (rect x y 70 50 F (set_fill_color (40, 40, 60) c)) (\<lambda>c1.
     let c2 = set_xy x (y + 8)
                (set_text_color (255, 107, 107) (set_font Helvetica Bold 28 c1))
     in bind_res (cell 70 15 number AlignC ToRight c2) (\<lambda>c3.
        cell 70 10 label AlignC ToRight
          (set_xy x (y + 30)
             (set_text_color (150, 150, 150) (set_font Helvetica Regular 11 c3)))))"

definition code_box :: "string \<Rightarrow> rat \<Rightarrow> canvas \<Rightarrow> error + canvas" where
  "code_box text y c =
     bind_res (rect 40 y 217 14 DF
                 (set_draw_color (60, 60, 80) (set_fill_color (20, 20, 30) c))) (\<lambda>c1.
     cell 217 8 text AlignC ToRight
       (set_xy 40 (y + 3) (set_text_color (72, 219, 251) (set_font Courier Regular 12 c1))))"

section \<open>The script: ten slides\<close>

text \<open>The module-level statements, in order. \<open>run_all\<close> runs a block of statements one
  after the other and stops at the first that raises; \<open>ok\<close> wraps a setter, which cannot
  raise.\<close>

fun run_all :: "(canvas \<Rightarrow> error + canvas) list \<Rightarrow> canvas \<Rightarrow> error + canvas" where
  "run_all [] c = Inr c"
| "run_all (stmt # stmts) c = bind_res (stmt c) (run_all stmts)"

definition ok :: "(canvas \<Rightarrow> canvas) \<Rightarrow> canvas \<Rightarrow> error + canvas" where
  "ok f c = Inr (f c)"

text \<open>\<^verbatim>\<open>for tag in [...]: x += pdf.tag(tag, x, y)\<close>; the result carries the final
  \<^verbatim>\<open>x\<close>.\<close>

fun tag_loop :: "metrics \<Rightarrow> string list \<Rightarrow> rat \<Rightarrow> rat \<Rightarrow> canvas \<Rightarrow> error + (canvas \<times> rat)" where
  "tag_loop cw [] x y c = Inr (c, x)"
| "tag_loop cw (t # ts) x y c =
     bind_res (tag cw t x y c) (\<lambda>(c', w). tag_loop cw ts (x + w) y c')"

definition tags :: "metrics \<Rightarrow> string list \<Rightarrow> rat \<Rightarrow> rat \<Rightarrow> canvas \<Rightarrow> error + canvas" where
  "tags cw ts x y c = bind_res (tag_loop cw ts x y c) (\<lambda>(c', x'). Inr c')"

definition bg_default :: color where
  "bg_default = (26, 26, 46)"

definition slide1 :: "metrics \<Rightarrow> canvas \<Rightarrow> error + canvas" where
  "slide1 cw = run_all
     [add_slide bg_default,
      ok (set_font Helvetica Regular 11),
      ok (set_text_color (254, 202, 87)),
      ok (set_xy 20 40),
      cell 257 10 ''UNISWAP V4 HOOK'' AlignC ToRight,
      title_text ''Sentiment Fee Hook'' 55 44,
      subtitle_text ''Dynamic fees that adapt to market psychology'' 100 18,
      tags cw [''Dynamic Fee'', ''Custom Hooks'', ''Oracle'', ''LP Fees'', ''DEX''] 60 130,
      slide_number 1]"

definition slide2 :: "linebreak \<Rightarrow> canvas \<Rightarrow> error + canvas" where
  "slide2 lb = run_all
     [add_slide bg_default,
      heading ''The Problem'' 20,
      body_text lb
        ''Traditional AMMs use fixed fees that are suboptimal in all market conditions.''
        20 45 16,
      box 20 70 125 70 ''Bull Markets (Greed)''
        [''Traders willingly pay more'',
         ''Fixed 0.3% fees leave money on table'',
         ''LPs miss potential revenue''],
      box 152 70 125 70 ''Bear Markets (Fear)''
        [''Fixed fees kill trading volume'',
         ''Traders avoid the exchange'',
         ''LPs earn nothing''],
      slide_number 2]"

definition slide3 :: "linebreak \<Rightarrow> canvas \<Rightarrow> error + canvas" where
  "slide3 lb = run_all
     [add_slide bg_default,
      heading ''Our Solution'' 20,
      body_text lb ''Counter-cyclical dynamic fees based on real-time market sentiment''
        20 45 16,
      fee_row ''Extreme Fear (0)'' ''0.25% fee'' (255, 107, 107) 75,
      fee_row ''Neutral (50)'' ''0.345% fee'' (254, 202, 87) 100,
      fee_row ''Extreme Greed (100)'' ''0.44% fee'' (29, 209, 161) 125,
      ok (set_font Helvetica Regular 13),
      ok (set_text_color (150, 150, 150)),
      ok (set_xy 20 160),
      cell 257 10 ''Maximizes fee x volume across all market cycles'' AlignC ToRight,
      slide_number 3]"

definition slide4 :: "canvas \<Rightarrow> error + canvas" where
  "slide4 = run_all
     [add_slide bg_default,
      heading ''Architecture'' 20,
      box 20 50 125 75 ''Off-Chain: Keeper Bot''
        [''Aggregates 8 free data sources'',
         ''Weighted sentiment scoring'',
         ''Updates every 4 hours'',
         ''$0/month data costs''],
      box 152 50 125 75 ''On-Chain: Hook Contract''
        [''Uniswap v4 beforeSwap hook'',
         ''EMA smoothing (anti-manipulation)'',
         ''Staleness protection (6hr fallback)'',
         ''Gas-efficient design''],
      code_box ''fee = MIN_FEE + (sentimentScore * FEE_RANGE / 100)'' 145,
      slide_number 4]"

text \<open>The two item columns of slide 5: \<^verbatim>\<open>for item in left_items\<close> and
  \<^verbatim>\<open>for item in right_items\<close>, each advancing \<^verbatim>\<open>y_pos\<close> by 22.\<close>

fun left_column :: "string list \<Rightarrow> rat \<Rightarrow> canvas \<Rightarrow> error + canvas" where
  "left_column [] y_pos c = Inr c"
| "left_column (item # items) y_pos c =
     bind_res (ellipse 25 (y_pos + 3) 4 4 F (set_fill_color (255, 107, 107) c)) (\<lambda>c1.
     bind_res (cell 100 8 item AlignL ToRight
                 (set_xy 33 y_pos
                    (set_text_color (220, 220, 220) (set_font Helvetica Regular 13 c1)))) (\<lambda>c2.
     left_column items (y_pos + 22) c2))"

fun right_column :: "string list \<Rightarrow> rat \<Rightarrow> canvas \<Rightarrow> error + canvas" where
  "right_column [] y_pos c = Inr c"
| "right_column (item # items) y_pos c =
     bind_res (ellipse 155 (y_pos + 3) 4 4 F (set_fill_color (255, 107, 107) c)) (\<lambda>c1.
     bind_res (cell 100 8 item AlignL ToRight
                 (set_xy 163 y_pos
                    (set_text_color (220, 220, 220) (set_font Helvetica Regular 13 c1)))) (\<lambda>c2.
     right_column items (y_pos + 22) c2))"

definition left_items :: "string list" where
  "left_items = [''Fear & Greed Index (30%)'', ''CoinGecko Global (20%)'',
                 ''CoinGecko Trending (10%)'', ''Bitcoin Dominance (10%)'']"

definition right_items :: "string list" where
  "right_items = [''DeFi Llama TVL (10%)'', ''ETH Price Movement (10%)'',
                  ''CryptoCompare Social (5%)'', ''Blockchain.com Stats (5%)'']"

definition slide5 :: "linebreak \<Rightarrow> canvas \<Rightarrow> error + canvas" where
  "slide5 lb = run_all
     [add_slide bg_default,
      heading ''Sentiment Data Sources'' 20,
      body_text lb ''8 free APIs aggregated with weighted scoring'' 20 45 14,
      left_column left_items 70,
      right_column right_items 70,
      slide_number 5]"

definition slide6 :: "metrics \<Rightarrow> canvas \<Rightarrow> error + canvas" where
  "slide6 cw = run_all
     [add_slide bg_default,
      heading ''Security & Anti-Manipulation'' 20,
      box 20 50 130 55 ''EMA Smoothing''
        [''30% new / 70% historical data'',
         ''Prevents sudden fee manipulation'',
         ''Limits single-update impact''],
      box 157 50 120 55 ''Anti-Frontrunning''
        [''Randomized update timing'',
         ''+/- 30 min jitter on updates'',
         ''Unpredictable execution''],
      ok (set_xy 25 115),
      bullet cw ''Staleness protection: Auto fallback to 0.30% after 6 hours'' 25 None None,
      bullet cw ''Bounded fees: Always between 0.25% - 0.44%'' 25 None None,
      bullet cw ''Multi-keeper support: Decentralized update authority'' 25 None None,
      slide_number 6]"

definition slide7 :: "metrics \<Rightarrow> canvas \<Rightarrow> error + canvas" where
  "slide7 cw = run_all
     [add_slide bg_default,
      heading ''Tech Stack'' 20,
      stat_box 40 55 ''50'' ''Test Cases'',
      stat_box 115 55 ''8'' ''Data Sources'',
      stat_box 190 55 ''$0'' ''Monthly Cost'',
      tags cw [''Solidity 0.8.26'', ''Foundry'', ''Uniswap v4'', ''TypeScript'', ''ethers.js'',
               ''OpenZeppelin''] 40 120,
      ok (set_font Helvetica Regular 12),
      ok (set_text_color (150, 150, 150)),
      ok (set_xy 20 150),
      cell 257 10 ''Supports: Ethereum, Arbitrum, Base, Optimism, Polygon + Testnets''
        AlignC ToRight,
      slide_number 7]"

definition slide8 :: "canvas \<Rightarrow> error + canvas" where
  "slide8 = run_all
     [add_slide bg_default,
      heading ''Decentralization Roadmap'' 20,
      ok (set_font Helvetica Bold 12),
      ok (set_text_color (72, 219, 251)),
      ok (set_xy 25 50),
      cell 100 8 ''v1 - Current (Implemented)'' AlignL ToRight,
      ok (set_font Helvetica Regular 11),
      ok (set_text_color (200, 200, 200)),
      ok (set_xy 30 60),
      cell 0 6 ''- Multi-keeper support (multiple authorized addresses)'' AlignL ToRight,
      ok (set_xy 30 68),
      cell 0 6 ''- Randomized timing jitter (anti-frontrunning)'' AlignL ToRight,
      ok (set_xy 30 76),
      cell 0 6 ''- EMA smoothing + staleness fallback'' AlignL ToRight,
      ok (set_font Helvetica Bold 12),
      ok (set_text_color (254, 202, 87)),
      ok (set_xy 25 90),
      cell 100 8 ''v1.5 - Short-term'' AlignL ToRight,
      ok (set_font Helvetica Regular 11),
      ok (set_text_color (200, 200, 200)),
      ok (set_xy 30 100),
      cell 0 6 ''- Chainlink Automation for reliable execution'' AlignL ToRight,
      ok (set_xy 30 108),
      cell 0 6 ''- Multi-sig keeper (3-of-5 trusted updaters)'' AlignL ToRight,
      ok (set_font Helvetica Bold 12),
      ok (set_text_color (255, 107, 107)),
      ok (set_xy 25 122),
      cell 100 8 ''v2 - Medium-term'' AlignL ToRight,
      ok (set_font Helvetica Regular 11),
      ok (set_text_color (200, 200, 200)),
      ok (set_xy 30 132),
      cell 0 6 ''- Chainlink Functions for trustless off-chain compute'' AlignL ToRight,
      ok (set_xy 30 140),
      cell 0 6 ''- Multiple independent data aggregators'' AlignL ToRight,
      ok (set_font Helvetica Bold 12),
      ok (set_text_color (167, 139, 250)),
      ok (set_xy 25 154),
      cell 100 8 ''v3 - Long-term'' AlignL ToRight,
      ok (set_font Helvetica Regular 11),
      ok (set_text_color (200, 200, 200)),
      ok (set_xy 30 164),
      cell 0 6 ''- Fully decentralized oracle network'' AlignL ToRight,
      ok (set_xy 30 172),
      cell 0 6 ''- DAO governance for parameter updates'' AlignL ToRight,
      slide_number 8]"

definition slide9 :: "canvas \<Rightarrow> error + canvas" where
  "slide9 = run_all
     [add_slide bg_default,
      heading ''Quick Start'' 20,
      ok (set_font Helvetica Bold 12),
      ok (set_text_color (72, 219, 251)),
      ok (set_xy 40 55),
      cell 100 8 ''Run Tests'' AlignL ToRight,
      code_box ''forge test'' 65,
      ok (set_xy 40 95),
      cell 100 8 ''Local Demo'' AlignL ToRight,
      code_box ''bash demo.sh'' 105,
      ok (set_xy 40 135),
      cell 100 8 ''Deploy & Run Keeper'' AlignL ToRight,
      code_box ''forge script script/DeployFullDemo.s.sol --broadcast'' 145,
      code_box ''cd keeper && npx ts-node src/multi-source-keeper.ts'' 165,
      slide_number 9]"

definition slide10 :: "metrics \<Rightarrow> canvas \<Rightarrow> error + canvas" where
  "slide10 cw = run_all
     [add_slide bg_default,
      title_text ''Thank You'' 60 48,
      subtitle_text ''Sentiment-Responsive Fee Hook for Uniswap v4'' 95 18,
      ok (set_font Helvetica Regular 14),
      ok (set_text_color (150, 150, 150)),
      ok (set_xy 20 125),
      cell 257 10 ''Dynamic fees that adapt to market psychology'' AlignC ToRight,
      ok (set_xy 20 138),
      cell 257 10 ''Maximizing LP revenue across all market cycles'' AlignC ToRight,
      (\<lambda>c. bind_res (tag cw ''MIT License'' 105 165 c) (\<lambda>(c1, w).
           bind_res (tag cw ''Open Source'' (105 + w) 165 c1) (\<lambda>(c2, w'). Inr c2))),
      slide_number 10]"

text \<open>The whole run up to \<^verbatim>\<open>pdf.output(...)\<close>: the document that is handed to the
  serialiser.\<close>

definition generate :: "metrics \<Rightarrow> linebreak \<Rightarrow> error + canvas" where
  "generate cw lb = run_all
     [slide1 cw, slide2 lb, slide3 lb, slide4, slide5 lb, slide6 cw, slide7 cw, slide8,
      slide9, slide10 cw] SlidePDF_init"

section \<open>Notions used to state the properties\<close>

text \<open>A canvas on which a slide is being drawn: a page is open and automatic page breaks
  are off, as \<^verbatim>\<open>SlidePDF.__init__\<close> leaves them and \<^verbatim>\<open>add_slide\<close> provides.\<close>

definition on_slide :: "canvas \<Rightarrow> bool" where
  "on_slide c \<longleftrightarrow> pages c \<noteq> [] \<and> \<not> auto_page_break c"

text \<open>The draws issued so far on the current page.\<close>

definition cur_draws :: "canvas \<Rightarrow> draw list" where
  "cur_draws c = draws (last (pages c))"

text \<open>The cursor and the text style, as one observation.\<close>

definition style_and_cursor :: "canvas \<Rightarrow> rat \<times> rat \<times> font option \<times> color" where
  "style_and_cursor c = (cur_x c, cur_y c, font c, text_color c)"

text \<open>A glyph table for evaluating the model on concrete inputs: every glyph is half as wide
  as the font size.\<close>

definition sample_metrics :: metrics where
  "sample_metrics fam sty ch = 500"

text \<open>The number of positions of a text at which a substring starts (occurrences may
  overlap), and the number of occurrences found scanning from the left and resuming behind
  each one (no overlap; Python's \<^verbatim>\<open>str.count\<close> for a non-empty substring).\<close>

fun occurrences :: "string \<Rightarrow> string \<Rightarrow> nat" where
  "occurrences hl [] = 0"
| "occurrences hl (ch # cs) =
     (if take (length hl) (ch # cs) = hl then 1 else 0) + occurrences hl cs"

function count_nonoverlap :: "string \<Rightarrow> string \<Rightarrow> nat" where
  "count_nonoverlap sep [] = 0"
| "count_nonoverlap sep (ch # cs) =
     (if sep \<noteq> [] \<and> take (length sep) (ch # cs) = sep
      then 1 + count_nonoverlap sep (drop (length sep) (ch # cs))
      else count_nonoverlap sep cs)"
  by pat_completeness auto
termination
  by (relation "measure (\<lambda>(sep, t). length t)") auto

text \<open>The horizontal extents \<open>(left, right)\<close> of the chip rectangles among some draws (the
  outlined and filled rectangles), and what it means for extents to follow each other from
  \<open>x\<close> on with a gap \<open>g\<close> between neighbours.\<close>

fun chip_spans :: "draw list \<Rightarrow> (rat \<times> rat) list" where
  "chip_spans [] = []"
| "chip_spans (Rect x y w h DF fc dc # ds) = (x, x + w) # chip_spans ds"
| "chip_spans (d # ds) = chip_spans ds"

fun gapped :: "rat \<Rightarrow> rat \<Rightarrow> (rat \<times> rat) list \<Rightarrow> bool" where
  "gapped g x [] = True"
| "gapped g x ((l, r) # spans) = (l = x \<and> l < r \<and> gapped g (r + g) spans)"

text \<open>What identifies a page of the deck: its size, its headline (the text of the first cell
  drawn in bold Helvetica in the accent colour, as \<^verbatim>\<open>title_text\<close> and
  \<^verbatim>\<open>heading\<close> draw it) and its label (the text of the last cell drawn on it, which is
  the page number when \<^verbatim>\<open>slide_number\<close> was called last).\<close>

fun is_headline :: "draw \<Rightarrow> bool" where
  "is_headline (Cell x y w h txt al (Font fam sty sz) col) =
     (fam = Helvetica \<and> sty = Bold \<and> col = (255, 107, 107))"
| "is_headline d = False"

fun draw_text :: "draw \<Rightarrow> string option" where
  "draw_text (Cell x y w h txt al f col) = Some txt"
| "draw_text d = None"

definition headline :: "page \<Rightarrow> string option" where
  "headline p = (case find is_headline (draws p) of None \<Rightarrow> None | Some d \<Rightarrow> draw_text d)"

definition page_label :: "page \<Rightarrow> string option" where
  "page_label p = (if draws p = [] then None else draw_text (last (draws p)))"

definition page_info :: "page \<Rightarrow> rat \<times> rat \<times> string option \<times> string option" where
  "page_info p = (pg_w p, pg_h p, headline p, page_label p)"

text \<open>The cells \<^verbatim>\<open>multi_cell\<close> draws for the lines of a text, one below the other.\<close>

fun line_cells :: "rat \<Rightarrow> rat \<Rightarrow> rat \<Rightarrow> rat \<Rightarrow> font \<Rightarrow> color \<Rightarrow> string list \<Rightarrow> draw list" where
  "line_cells x y w h f col [] = []"
| "line_cells x y w h f col (l # ls) = Cell x y w h l AlignL f col # line_cells x (y + h) w h f col ls"

section \<open>Facts about the primitives\<close>

lemma cell_width_nz [simp]: "w \<noteq> 0 \<Longrightarrow> cell_width w a = w"
  by (simp add: cell_width_def)

lemma cell_width_0 [simp]: "cell_width 0 a = a"
  by (simp add: cell_width_def)

lemma from_edge_nonneg [simp]: "0 \<le> v \<Longrightarrow> from_edge e v = v"
  by (simp add: from_edge_def)

lemma string_width_nonneg: "0 \<le> sz \<Longrightarrow> 0 \<le> string_width cw (Font fam sty sz) s"
  by (simp add: string_width.simps k_def)

lemmas setter_defs = set_fill_color_def set_draw_color_def set_text_color_def set_font_def
  set_x_def set_y_def set_xy_def get_y_def

text \<open>On a slide, a cell is drawn at the cursor on the current page.\<close>

lemma cell_ok:
  assumes "pages c \<noteq> []" "\<not> auto_page_break c" "font c = Some f"
  shows "cell w h txt al lnm c = Inr
     (let w1 = cell_width w (page_w c - r_margin c - cur_x c);
          c2 = emit (Cell (cur_x c) (cur_y c) w1 h txt al f (text_color c)) c
      in case lnm of
           ToRight \<Rightarrow> c2\<lparr>cur_x := cur_x c + w1\<rparr>
         | NextLine \<Rightarrow> c2\<lparr>cur_x := l_margin c, cur_y := cur_y c + h\<rparr>
         | Below \<Rightarrow> c2\<lparr>cur_y := cur_y c + h\<rparr>)"
  using assms by (simp add: cell_def Let_def emit_def split: ln_mode.splits)

lemma cell_returns:
  assumes "pages c \<noteq> []" "font c = Some f"
  shows "\<exists>c'. cell w h txt al lnm c = Inr c'"
  using assms by (simp add: cell_def Let_def)

section \<open>Facts about splitting\<close>

lemma split_from_nonempty: "split_from sep acc t \<noteq> []"
  by (induction sep acc t rule: split_from.induct) auto

lemma split_from_length: "length (split_from sep acc t) = count_nonoverlap sep t + 1"
  by (induction sep acc t rule: split_from.induct) auto

lemma split_from_single: "split_from sep acc t = [s] \<Longrightarrow> s = rev acc @ t"
  by (induction sep acc t rule: split_from.induct)
     (auto split: if_splits simp: split_from_nonempty)

lemma split_from_pair:
  "split_from sep acc t = [p, s] \<Longrightarrow> rev acc @ t = p @ sep @ s"
proof (induction sep acc t rule: split_from.induct)
  case (1 sep acc)
  then show ?case by simp
next
  case (2 sep acc ch cs)
  show ?case
  proof (cases "sep \<noteq> [] \<and> take (length sep) (ch # cs) = sep")
    case True
    with "2.prems" have p: "p = rev acc"
      and s: "split_from sep [] (drop (length sep) (ch # cs)) = [s]" by auto
    from split_from_single[OF s] have "s = drop (length sep) (ch # cs)" by simp
    moreover have "ch # cs = take (length sep) (ch # cs) @ drop (length sep) (ch # cs)"
      by (simp only: append_take_drop_id)
    ultimately have "ch # cs = sep @ s" using True by simp
    with p show ?thesis by simp
  next
    case False
    with "2.prems" have "split_from sep (ch # acc) cs = [p, s]" by auto
    with "2.IH"(2)[OF False] show ?thesis by simp
  qed
qed

lemma occurrences_drop: "occurrences hl (drop n t) \<le> occurrences hl t"
proof (induction t arbitrary: n)
  case Nil
  then show ?case by simp
next
  case (Cons a t)
  show ?case
  proof (cases n)
    case 0
    then show ?thesis by simp
  next
    case (Suc m)
    have "occurrences hl (drop m t) \<le> occurrences hl t" by (rule Cons.IH)
    then show ?thesis using Suc by simp
  qed
qed

lemma count_le_occurrences: "count_nonoverlap hl t \<le> occurrences hl t"
proof (induction hl t rule: count_nonoverlap.induct)
  case (1 sep)
  then show ?case by simp
next
  case (2 sep ch cs)
  show ?case
  proof (cases "sep \<noteq> [] \<and> take (length sep) (ch # cs) = sep")
    case True
    then obtain m where m: "length sep = Suc m" by (cases sep) auto
    have "count_nonoverlap sep (drop (length sep) (ch # cs))
            \<le> occurrences sep (drop (length sep) (ch # cs))"
      using "2.IH"(1)[OF True] .
    also have "\<dots> = occurrences sep (drop m cs)" using m by simp
    also have "\<dots> \<le> occurrences sep cs" by (rule occurrences_drop)
    finally show ?thesis using True by simp
  next
    case False
    then have "count_nonoverlap sep (ch # cs) = count_nonoverlap sep cs" by auto
    moreover have "count_nonoverlap sep cs \<le> occurrences sep cs"
      using "2.IH"(2)[OF False] .
    ultimately show ?thesis by simp
  qed
qed

lemma occurrences_pos_count_pos:
  "hl \<noteq> [] \<Longrightarrow> 0 < occurrences hl t \<Longrightarrow> 0 < count_nonoverlap hl t"
  by (induction t) (auto split: if_splits)

lemma occurrences_one: "hl \<noteq> [] \<Longrightarrow> occurrences hl t = 1 \<Longrightarrow> count_nonoverlap hl t = 1"
  using count_le_occurrences[of hl t] occurrences_pos_count_pos[of hl t] by simp

lemma occurrences_zero: "occurrences hl t = 0 \<Longrightarrow> count_nonoverlap hl t = 0"
  using count_le_occurrences[of hl t] by simp

lemma count_one_split:
  assumes "count_nonoverlap hl text = 1"
  obtains p s where "split_from hl [] text = [p, s]" "text = p @ hl @ s"
proof -
  have "length (split_from hl [] text) = 2"
    using assms by (simp add: split_from_length)
  then obtain p s where ps: "split_from hl [] text = [p, s]"
    by (auto simp: length_Suc_conv numeral_2_eq_2)
  from split_from_pair[OF ps] have "text = p @ hl @ s" by simp
  with ps that show thesis by blast
qed

lemma case_not_pair:
  "length parts \<noteq> 2 \<Longrightarrow>
   (case parts of [] \<Rightarrow> b | [p0] \<Rightarrow> b | [p0, p1] \<Rightarrow> a p0 p1 | p0 # p1 # p2 # ps \<Rightarrow> b) = b"
  by (auto split: list.splits)

section \<open>Facts about the composer\<close>

lemma string_width_plus_pos: "0 \<le> sz \<Longrightarrow> string_width cw (Font fam sty sz) s + 12 \<noteq> 0"
  using string_width_nonneg[of sz cw fam sty s] by linarith

lemma on_slide_set_xy: "on_slide (set_xy x y c) = on_slide c"
  by (simp add: on_slide_def setter_defs)

lemma cur_draws_set_xy: "cur_draws (set_xy x y c) = cur_draws c"
  by (simp add: cur_draws_def setter_defs)

lemma on_slide_start: "on_slide (add_page SlidePDF_init)"
  by (simp add: on_slide_def add_page_def SlidePDF_init_def set_auto_page_break_def
      FPDF_init_L_mm_A4_def)

lemma tag_effect:
  assumes "on_slide c" "font c = Some f"
  shows "\<exists>c'. tag cw text x y c = Inr (c', string_width cw f text + 12 + 5)
     \<and> on_slide c' \<and> font c' = Some (Font Helvetica Regular 9)
     \<and> butlast (pages c') = butlast (pages c)
     \<and> cur_draws c' = cur_draws c @
         [Rect x y (string_width cw f text + 12) 10 DF (80, 40, 40) (255, 107, 107),
          Cell (from_edge (page_w c) x) (from_edge (page_h c) (y + 2))
            (cell_width (string_width cw f text + 12)
               (page_w c - r_margin c - from_edge (page_w c) x))
            6 text AlignC (Font Helvetica Regular 9) (255, 150, 150)]"
  using assms
  by (simp add: tag_def on_slide_def cur_draws_def Let_def cell_ok rect_def get_string_width_def
      setter_defs emit_def)

lemma bullet_y_zero: "bullet cw text x (Some 0) hl c = bullet cw text x None hl c"
  by (simp add: bullet_def)

lemma bullet_y_nonzero:
  "y \<noteq> 0 \<Longrightarrow> bullet cw text x (Some y) hl c = bullet cw text x None hl (set_xy x y c)"
  by (simp add: bullet_def)

lemma bullet_no_highlight: "bullet cw text x y (Some []) c = bullet cw text x y None c"
  by (simp add: bullet_def Let_def)

lemma bullet_plain:
  assumes "on_slide c"
  shows "\<exists>c'. bullet cw text x None None c = Inr c'
     \<and> butlast (pages c') = butlast (pages c)
     \<and> cur_draws c' = cur_draws c @
         [Ellipse x (cur_y c + 3) 4 4 F (255, 107, 107) (draw_color c),
          Cell (from_edge (page_w c) (x + 8)) (from_edge (page_h c) (cur_y c))
            (page_w c - r_margin c - from_edge (page_w c) (x + 8)) 8 text AlignL
            (Font Helvetica Regular 13) (220, 220, 220)]"
  using assms
  by (simp add: bullet_def on_slide_def cur_draws_def Let_def cell_ok ellipse_def
      setter_defs emit_def)

lemma bullet_fallback:
  assumes "hl \<noteq> []" "count_nonoverlap hl text \<noteq> 1"
  shows "bullet cw text x y (Some hl) c = bullet cw text x y None c"
proof -
  have "length (split_from hl [] text) \<noteq> 2"
    using assms(2) by (simp add: split_from_length)
  then show ?thesis
    using assms(1) by (simp add: bullet_def py_split_def Let_def case_not_pair)
qed

lemma bullet_spans:
  assumes "on_slide c" "hl \<noteq> []" "split_from hl [] text = [p, s]"
  shows "\<exists>c' x1 yy w1 w2 w3. bullet cw text x None (Some hl) c = Inr c'
     \<and> butlast (pages c') = butlast (pages c)
     \<and> cur_draws c' = cur_draws c @
         [Ellipse x (cur_y c + 3) 4 4 F (255, 107, 107) (draw_color c),
          Cell x1 yy w1 8 p AlignL (Font Helvetica Regular 13) (220, 220, 220),
          Cell (x1 + w1) yy w2 8 hl AlignL (Font Helvetica Bold 13) (254, 202, 87),
          Cell (x1 + w1 + w2) yy w3 8 s AlignL (Font Helvetica Regular 13) (220, 220, 220)]"
  using assms
  by (simp add: bullet_def py_split_def on_slide_def cur_draws_def Let_def cell_ok ellipse_def
      get_string_width_def setter_defs emit_def)

lemma bullet_marker:
  assumes "on_slide c"
  shows "\<exists>c' ds. bullet cw text x None hl c = Inr c'
     \<and> cur_draws c' = cur_draws c @
          Ellipse x (cur_y c + 3) 4 4 F (255, 107, 107) (draw_color c) # ds"
proof (cases "\<exists>h. hl = Some h \<and> h \<noteq> [] \<and> count_nonoverlap h text = 1")
  case True
  then obtain h where h: "hl = Some h" "h \<noteq> []" "count_nonoverlap h text = 1" by blast
  from h(3) obtain p s where "split_from h [] text = [p, s]" by (rule count_one_split)
  from bullet_spans[OF assms h(2) this, of cw x] show ?thesis using h(1) by auto
next
  case False
  have "bullet cw text x None hl c = bullet cw text x None None c"
  proof (cases hl)
    case None
    then show ?thesis by simp
  next
    case (Some h)
    show ?thesis
    proof (cases "h = []")
      case True
      then show ?thesis using Some by (simp add: bullet_no_highlight)
    next
      case ne: False
      with False Some have "count_nonoverlap h text \<noteq> 1" by simp
      from bullet_fallback[OF ne this] show ?thesis using Some by simp
    qed
  qed
  with bullet_plain[OF assms, of cw "text" x] show ?thesis by auto
qed

lemma bullet_page_closed: "pages c = [] \<Longrightarrow> bullet cw text x y None c = Inl NoPageOpen"
  by (cases y) (simp_all add: bullet_def ellipse_def setter_defs Let_def)

lemma bullet_page_open:
  assumes "pages c \<noteq> []"
  shows "\<exists>c'. bullet cw text x y None c = Inr c'"
proof -
  define c1 where "c1 = (case y of None \<Rightarrow> c | Some yv \<Rightarrow> if yv \<noteq> 0 then set_xy x yv c else c)"
  define c3 where "c3 = emit (Ellipse x (get_y (set_fill_color (255, 107, 107) c1) + 3) 4 4 F
      (255, 107, 107) (draw_color c1)) (set_fill_color (255, 107, 107) c1)"
  define c4 where "c4 = set_text_color (220, 220, 220)
      (set_font Helvetica Regular 13 (set_xy (x + 8) (get_y c3) c3))"
  have p1: "pages c1 \<noteq> []"
    using assms by (simp add: c1_def setter_defs split: option.splits)
  have e: "ellipse x (get_y (set_fill_color (255, 107, 107) c1) + 3) 4 4 F
      (set_fill_color (255, 107, 107) c1) = Inr c3"
    using p1 by (simp add: ellipse_def c3_def setter_defs)
  have "pages c4 \<noteq> []" "font c4 = Some (Font Helvetica Regular 13)"
    by (simp_all add: c4_def c3_def setter_defs emit_def)
  from cell_returns[OF this] obtain c8 where "cell 0 8 text AlignL NextLine c4 = Inr c8"
    by blast
  then have "bullet cw text x y None c = Inr (set_y (get_y c8 + 2) c8)"
    using e unfolding bullet_def by (simp add: Let_def c1_def[symmetric] c4_def[symmetric])
  then show ?thesis by blast
qed

lemma bullet_plain_no_value_error: "bullet cw text x y None c \<noteq> Inl ValueError"
proof (cases "pages c = []")
  case True
  then show ?thesis by (simp add: bullet_page_closed)
next
  case False
  from bullet_page_open[OF this, of cw "text" x y] show ?thesis by auto
qed

lemmas start_defs = SlidePDF_init_def set_auto_page_break_def FPDF_init_L_mm_A4_def add_page_def

section \<open>The statistic tile\<close>

text \<open>Claim C5. On a slide, \<^verbatim>\<open>stat_box(x, y, number, label)\<close> draws exactly a filled
  70 x 50 rectangle at \<open>(x, y)\<close>, then the number in a centred 70 x 15 cell in bold 28 pt
  placed by \<^verbatim>\<open>set_xy(x, y + 8)\<close>, then the label in a centred 70 x 10 cell in regular
  11 pt placed by \<^verbatim>\<open>set_xy(x, y + 30)\<close>. For \<open>(40, 55)\<close>, \<open>50\<close> and
  \<open>Test Cases\<close> these are the rectangle at \<open>(40, 55)\<close> and the cells at \<open>(40, 63)\<close> and
  \<open>(40, 85)\<close>.\<close>

theorem stat_box_draws:
  assumes "on_slide c"
  shows "(\<exists>c'. stat_box x y number label c = Inr c'
       \<and> butlast (pages c') = butlast (pages c)
       \<and> cur_draws c' = cur_draws c @
           [Rect x y 70 50 F (40, 40, 60) (draw_color c),
            Cell (from_edge (page_w c) x) (from_edge (page_h c) (y + 8)) 70 15 number AlignC
              (Font Helvetica Bold 28) (255, 107, 107),
            Cell (from_edge (page_w c) x) (from_edge (page_h c) (y + 30)) 70 10 label AlignC
              (Font Helvetica Regular 11) (150, 150, 150)])
    \<and> (\<exists>c'. stat_box 40 55 ''50'' ''Test Cases'' c = Inr c'
       \<and> butlast (pages c') = butlast (pages c)
       \<and> cur_draws c' = cur_draws c @
           [Rect 40 55 70 50 F (40, 40, 60) (draw_color c),
            Cell 40 63 70 15 ''50'' AlignC (Font Helvetica Bold 28) (255, 107, 107),
            Cell 40 85 70 10 ''Test Cases'' AlignC (Font Helvetica Regular 11)
              (150, 150, 150)])"
  using assms
  by (simp add: stat_box_def on_slide_def cur_draws_def Let_def cell_ok rect_def
      setter_defs emit_def)

theorem stat_box_draws_witness:
  "on_slide (add_page SlidePDF_init)
   \<and> (\<exists>c'. stat_box 40 55 ''50'' ''Test Cases'' (add_page SlidePDF_init) = Inr c'
       \<and> butlast (pages c') = []
       \<and> cur_draws c' =
           [Rect 40 55 70 50 F (40, 40, 60) (0, 0, 0),
            Cell 40 63 70 15 ''50'' AlignC (Font Helvetica Bold 28) (255, 107, 107),
            Cell 40 85 70 10 ''Test Cases'' AlignC (Font Helvetica Regular 11)
              (150, 150, 150)])"
  using stat_box_draws[OF on_slide_start, of 40 55 "''50''" "''Test Cases''", THEN conjunct2]
  by (simp add: on_slide_start) (simp add: cur_draws_def start_defs)

section \<open>The labelled box\<close>

text \<open>Claim C6. On a slide, \<^verbatim>\<open>box(x, y, w, h, title, [])\<close> returns normally and draws
  exactly two things on the current page: the filled and outlined rectangle and the title
  cell. No item marker and no item text is drawn.\<close>

theorem box_empty_items:
  assumes "on_slide c"
  shows "\<exists>c'. box x y w h title [] c = Inr c'
     \<and> butlast (pages c') = butlast (pages c)
     \<and> cur_draws c' = cur_draws c @
         [Rect x y w h DF (40, 40, 60) (80, 80, 100),
          Cell (from_edge (page_w c) (x + 5)) (from_edge (page_h c) (y + 5))
            (cell_width (w - 10) (page_w c - r_margin c - from_edge (page_w c) (x + 5)))
            8 title AlignL (Font Helvetica Bold 14) (72, 219, 251)]"
  using assms
  by (simp add: box_def on_slide_def cur_draws_def Let_def cell_ok rect_def
      setter_defs emit_def)

theorem box_empty_items_witness:
  "on_slide (add_page SlidePDF_init)
   \<and> (\<exists>c'. box 20 70 125 70 ''Bull Markets (Greed)'' [] (add_page SlidePDF_init) = Inr c'
       \<and> butlast (pages c') = []
       \<and> cur_draws c' =
           [Rect 20 70 125 70 DF (40, 40, 60) (80, 80, 100),
            Cell 25 75 115 8 ''Bull Markets (Greed)'' AlignL (Font Helvetica Bold 14)
              (72, 219, 251)])"
  using box_empty_items[OF on_slide_start, of 20 70 125 70 "''Bull Markets (Greed)''"]
  by (simp add: on_slide_start) (simp add: cur_draws_def start_defs)

section \<open>The page number\<close>

text \<open>Claim C7, as stated, fails: \<^verbatim>\<open>slide_number\<close> sets the font, the text colour and
  the cursor and does not restore them. After a bold 28 pt heading style with the cursor at
  \<open>(10, 10)\<close>, the font is regular 10 pt, the text colour grey and the cursor at
  \<open>(290, 195)\<close>.\<close>

theorem slide_number_changes_style_counterexample:
  "style_and_cursor (set_font Helvetica Bold 28 (add_page SlidePDF_init))
      = (10, 10, Some (Font Helvetica Bold 28), (0, 0, 0))
   \<and> map_sum id style_and_cursor
        (slide_number 1 (set_font Helvetica Bold 28 (add_page SlidePDF_init)))
      = Inr (290, 195, Some (Font Helvetica Regular 10), (150, 150, 150))"
  by (simp add: slide_number_def style_and_cursor_def cell_ok setter_defs emit_def start_defs)

text \<open>Claim C7, amended. On a slide, \<^verbatim>\<open>slide_number(num)\<close> adds exactly one draw, the
  right-aligned 10 x 10 cell at \<open>(280, 195)\<close> holding \<^verbatim>\<open>str(num)\<close>, to the current
  page; earlier draws, other pages, fill and draw colour, margins and page geometry stay as
  they were. It sets the font to Helvetica regular 10 pt and the text colour to
  \<open>(150, 150, 150)\<close> and leaves the cursor at \<open>(290, 195)\<close>.\<close>

theorem slide_number_effect:
  assumes "on_slide c"
  shows "slide_number num c = Inr (c\<lparr>pages := butlast (pages c) @
            [(last (pages c))\<lparr>draws := cur_draws c @
               [Cell 280 195 10 10 (str num) AlignR (Font Helvetica Regular 10)
                  (150, 150, 150)]\<rparr>],
          cur_x := 290, cur_y := 195, font := Some (Font Helvetica Regular 10),
          text_color := (150, 150, 150)\<rparr>)"
  using assms
  by (simp add: slide_number_def on_slide_def cur_draws_def cell_ok setter_defs emit_def)

theorem slide_number_effect_witness:
  "on_slide (add_page SlidePDF_init)
   \<and> map_sum id cur_draws (slide_number 7 (add_page SlidePDF_init))
       = Inr [Cell 280 195 10 10 ''7'' AlignR (Font Helvetica Regular 10) (150, 150, 150)]
   \<and> map_sum id fill_color (slide_number 7 (add_page SlidePDF_init)) = Inr (0, 0, 0)"
proof -
  have s: "str 7 = ''7''" by code_simp
  show ?thesis
    using slide_number_effect[OF on_slide_start, of 7]
    by (simp add: on_slide_start s) (simp add: cur_draws_def start_defs)
qed

section \<open>The bulleted item\<close>

text \<open>Claim C8. The guard \<^verbatim>\<open>if y:\<close> of \<^verbatim>\<open>bullet\<close> treats \<^verbatim>\<open>y = 0\<close> like a
  missing \<^verbatim>\<open>y\<close>: the cursor is not moved and, on a slide, the marker is drawn 3 units
  below the cursor's old y. For every other \<^verbatim>\<open>y\<close> the call is
  \<^verbatim>\<open>set_xy(x, y)\<close> followed by the call without \<^verbatim>\<open>y\<close>, and the marker is drawn 3
  units below the y that \<^verbatim>\<open>set_xy\<close> has set.\<close>

theorem bullet_y_truthiness:
  "bullet cw text x (Some 0) hl c = bullet cw text x None hl c
   \<and> (y \<noteq> 0 \<longrightarrow> bullet cw text x (Some y) hl c = bullet cw text x None hl (set_xy x y c))
   \<and> (on_slide c \<longrightarrow>
        (\<exists>c' ds. bullet cw text x (Some 0) hl c = Inr c'
           \<and> cur_draws c' = cur_draws c @
                Ellipse x (cur_y c + 3) 4 4 F (255, 107, 107) (draw_color c) # ds))
   \<and> (on_slide c \<and> y \<noteq> 0 \<longrightarrow>
        (\<exists>c' ds. bullet cw text x (Some y) hl c = Inr c'
           \<and> cur_draws c' = cur_draws c @
                Ellipse x (cur_y (set_xy x y c) + 3) 4 4 F (255, 107, 107) (draw_color c) # ds))"
proof -
  have a: "bullet cw text x (Some 0) hl c = bullet cw text x None hl c"
    by (rule bullet_y_zero)
  have b: "y \<noteq> 0 \<longrightarrow> bullet cw text x (Some y) hl c = bullet cw text x None hl (set_xy x y c)"
    by (simp add: bullet_y_nonzero)
  have c: "on_slide c \<longrightarrow>
        (\<exists>c' ds. bullet cw text x (Some 0) hl c = Inr c'
           \<and> cur_draws c' = cur_draws c @
                Ellipse x (cur_y c + 3) 4 4 F (255, 107, 107) (draw_color c) # ds)"
    using bullet_marker[of c cw "text" x hl] by (simp add: a)
  have d: "on_slide c \<and> y \<noteq> 0 \<longrightarrow>
        (\<exists>c' ds. bullet cw text x (Some y) hl c = Inr c'
           \<and> cur_draws c' = cur_draws c @
                Ellipse x (cur_y (set_xy x y c) + 3) 4 4 F (255, 107, 107) (draw_color c) # ds)"
  proof
    assume h: "on_slide c \<and> y \<noteq> 0"
    then have "on_slide (set_xy x y c)" by (simp add: on_slide_set_xy)
    from bullet_marker[OF this, of cw "text" x hl]
    have "\<exists>c' ds. bullet cw text x None hl (set_xy x y c) = Inr c'
           \<and> cur_draws c' = cur_draws c @
                Ellipse x (cur_y (set_xy x y c) + 3) 4 4 F (255, 107, 107) (draw_color c) # ds"
      by (simp add: cur_draws_set_xy) (simp add: setter_defs)
    with h show "\<exists>c' ds. bullet cw text x (Some y) hl c = Inr c'
           \<and> cur_draws c' = cur_draws c @
                Ellipse x (cur_y (set_xy x y c) + 3) 4 4 F (255, 107, 107) (draw_color c) # ds"
      by (simp add: bullet_y_nonzero)
  qed
  from a b c d show ?thesis by blast
qed

theorem bullet_y_truthiness_witness:
  "on_slide (set_xy 25 115 (add_page SlidePDF_init)) \<and> (40::rat) \<noteq> 0
   \<and> cur_y (set_xy 25 115 (add_page SlidePDF_init)) = 115
   \<and> cur_y (set_xy 25 40 (set_xy 25 115 (add_page SlidePDF_init))) = 40
   \<and> (\<exists>c' ds. bullet sample_metrics ''Bounded fees'' 25 (Some 0) None
                 (set_xy 25 115 (add_page SlidePDF_init)) = Inr c'
        \<and> cur_draws c' = Ellipse 25 118 4 4 F (255, 107, 107) (0, 0, 0) # ds)
   \<and> (\<exists>c' ds. bullet sample_metrics ''Bounded fees'' 25 (Some 40) None
                 (set_xy 25 115 (add_page SlidePDF_init)) = Inr c'
        \<and> cur_draws c' = Ellipse 25 43 4 4 F (255, 107, 107) (0, 0, 0) # ds)"
proof -
  let ?c = "set_xy 25 115 (add_page SlidePDF_init)"
  have os: "on_slide ?c" by (simp add: on_slide_set_xy on_slide_start)
  have v: "cur_y ?c = 115" "cur_y (set_xy 25 40 ?c) = 40" "cur_draws ?c = []"
    "draw_color ?c = (0, 0, 0)"
    by (simp_all add: setter_defs cur_draws_def start_defs)
  have n: "(40::rat) \<noteq> 0" by simp
  note t = bullet_y_truthiness[of sample_metrics "''Bounded fees''" 25 None ?c 40]
  have e0: "\<exists>c' ds. bullet sample_metrics ''Bounded fees'' 25 (Some 0) None ?c = Inr c'
      \<and> cur_draws c' = cur_draws ?c @
           Ellipse 25 (cur_y ?c + 3) 4 4 F (255, 107, 107) (draw_color ?c) # ds"
    using t[THEN conjunct2, THEN conjunct2, THEN conjunct1, THEN mp, OF os] .
  have e1: "\<exists>c' ds. bullet sample_metrics ''Bounded fees'' 25 (Some 40) None ?c = Inr c'
      \<and> cur_draws c' = cur_draws ?c @
           Ellipse 25 (cur_y (set_xy 25 40 ?c) + 3) 4 4 F (255, 107, 107) (draw_color ?c) # ds"
    using t[THEN conjunct2, THEN conjunct2, THEN conjunct2, THEN mp, OF conjI[OF os n]] .
  from e0 e1 os show ?thesis by (simp add: v)
qed

text \<open>Claim C9. With \<^verbatim>\<open>highlight = ''\<close> the guard \<^verbatim>\<open>if highlight:\<close> is false:
  \<^verbatim>\<open>text.split('')\<close>, which raises \<^verbatim>\<open>ValueError\<close>, is not reached, the call is
  the call without a highlight, it never raises \<^verbatim>\<open>ValueError\<close>, and on a slide it
  returns normally.\<close>

theorem bullet_empty_highlight:
  "py_split text [] = Inl ValueError
   \<and> bullet cw text x y (Some []) c = bullet cw text x y None c
   \<and> bullet cw text x y (Some []) c \<noteq> Inl ValueError
   \<and> (pages c \<noteq> [] \<longrightarrow> (\<exists>c'. bullet cw text x y (Some []) c = Inr c'))"
  using bullet_plain_no_value_error[of cw "text" x y c] bullet_page_open[of c cw "text" x y]
  by (simp add: py_split_def bullet_no_highlight)

theorem bullet_empty_highlight_witness:
  "pages (add_page SlidePDF_init) \<noteq> []
   \<and> py_split ''Bounded fees'' [] = Inl ValueError
   \<and> bullet sample_metrics ''Bounded fees'' 25 None (Some []) (add_page SlidePDF_init)
       = bullet sample_metrics ''Bounded fees'' 25 None None (add_page SlidePDF_init)
   \<and> (\<exists>c'. bullet sample_metrics ''Bounded fees'' 25 None (Some []) (add_page SlidePDF_init)
             = Inr c')"
proof -
  have p: "pages (add_page SlidePDF_init) \<noteq> []" by (simp add: add_page_def)
  note t = bullet_empty_highlight[of "''Bounded fees''" sample_metrics 25 None
      "add_page SlidePDF_init"]
  have a: "py_split ''Bounded fees'' [] = Inl ValueError"
    using t[THEN conjunct1] .
  have b: "bullet sample_metrics ''Bounded fees'' 25 None (Some []) (add_page SlidePDF_init)
       = bullet sample_metrics ''Bounded fees'' 25 None None (add_page SlidePDF_init)"
    using t[THEN conjunct2, THEN conjunct1] .
  have d: "\<exists>c'. bullet sample_metrics ''Bounded fees'' 25 None (Some []) (add_page SlidePDF_init)
             = Inr c'"
    using t[THEN conjunct2, THEN conjunct2, THEN conjunct2, THEN mp, OF p] .
  from p a b d show ?thesis by (intro conjI)
qed

text \<open>Claim C2, as stated, fails where occurrences overlap: \<open>aa\<close> starts at two positions
  of \<open>xaaa\<close>, yet \<^verbatim>\<open>'xaaa'.split('aa')\<close> has two parts and the item is drawn in three
  spans, not plainly.\<close>

theorem bullet_highlight_overlap_counterexample:
  "occurrences ''aa'' ''xaaa'' = 2
   \<and> map_sum id cur_draws
        (bullet sample_metrics ''xaaa'' 25 None (Some ''aa'') (add_page SlidePDF_init))
      = Inr [Ellipse 25 13 4 4 F (255, 107, 107) (0, 0, 0),
             Cell 33 10 (1651 / 720) 8 ''x'' AlignL (Font Helvetica Regular 13) (220, 220, 220),
             Cell (25411 / 720) 10 (1651 / 360) 8 ''aa'' AlignL (Font Helvetica Bold 13)
               (254, 202, 87),
             Cell (9571 / 240) 10 (59309 / 240) 8 ''a'' AlignL (Font Helvetica Regular 13)
               (220, 220, 220)]
   \<and> map_sum id cur_draws
        (bullet sample_metrics ''xaaa'' 25 None None (add_page SlidePDF_init))
      = Inr [Ellipse 25 13 4 4 F (255, 107, 107) (0, 0, 0),
             Cell 33 10 254 8 ''xaaa'' AlignL (Font Helvetica Regular 13) (220, 220, 220)]"
  by (simp add: bullet_def py_split_def cur_draws_def Let_def cell_ok ellipse_def
      get_string_width_def setter_defs emit_def start_defs string_width.simps k_def
      sample_metrics_def)

text \<open>Claim C2, amended: occurrences are counted from the left without overlap, as
  \<^verbatim>\<open>split\<close> finds them. On a slide, for a non-empty highlight: if it occurs exactly once
  in this sense (in particular if it starts at exactly one position of the text), the item
  is the marker followed by three cells on one line, one after the other: the part before
  the highlight in regular grey, the highlight in bold yellow, the part after it in
  regular grey, and the three texts concatenated are the text. If it does not occur exactly
  once in this sense (in particular if it starts at no position), the call equals the call
  without a highlight, which returns normally with the marker and one cell holding the
  whole text.\<close>

theorem bullet_highlight_nonoverlap:
  assumes "on_slide c" "hl \<noteq> []"
  shows "(count_nonoverlap hl text = 1 \<longrightarrow>
           (\<exists>c' p s ey x1 yy w1 w2 w3. bullet cw text x y (Some hl) c = Inr c'
              \<and> text = p @ hl @ s
              \<and> butlast (pages c') = butlast (pages c)
              \<and> cur_draws c' = cur_draws c @
                  [Ellipse x ey 4 4 F (255, 107, 107) (draw_color c),
                   Cell x1 yy w1 8 p AlignL (Font Helvetica Regular 13) (220, 220, 220),
                   Cell (x1 + w1) yy w2 8 hl AlignL (Font Helvetica Bold 13) (254, 202, 87),
                   Cell (x1 + w1 + w2) yy w3 8 s AlignL (Font Helvetica Regular 13)
                     (220, 220, 220)]))
    \<and> (count_nonoverlap hl text \<noteq> 1 \<longrightarrow>
           bullet cw text x y (Some hl) c = bullet cw text x y None c
           \<and> (\<exists>c' ey x1 yy w1. bullet cw text x y None c = Inr c'
                \<and> butlast (pages c') = butlast (pages c)
                \<and> cur_draws c' = cur_draws c @
                    [Ellipse x ey 4 4 F (255, 107, 107) (draw_color c),
                     Cell x1 yy w1 8 text AlignL (Font Helvetica Regular 13) (220, 220, 220)]))
    \<and> (occurrences hl text = 1 \<longrightarrow> count_nonoverlap hl text = 1)
    \<and> (occurrences hl text = 0 \<longrightarrow> count_nonoverlap hl text = 0)"
proof -
  define c1 where "c1 = (if y = None \<or> y = Some 0 then c else set_xy x (the y) c)"
  have os: "on_slide c1" and cd: "cur_draws c1 = cur_draws c"
    using assms(1) by (simp_all add: c1_def on_slide_set_xy cur_draws_set_xy)
  have dc: "draw_color c1 = draw_color c" and bl: "butlast (pages c1) = butlast (pages c)"
    by (simp_all add: c1_def setter_defs)
  have via: "bullet cw text x y h c = bullet cw text x None h c1" for h
    by (cases y) (simp_all add: c1_def bullet_y_zero bullet_y_nonzero)
  have one: "\<exists>c' p s ey x1 yy w1 w2 w3. bullet cw text x y (Some hl) c = Inr c'
              \<and> text = p @ hl @ s
              \<and> butlast (pages c') = butlast (pages c)
              \<and> cur_draws c' = cur_draws c @
                  [Ellipse x ey 4 4 F (255, 107, 107) (draw_color c),
                   Cell x1 yy w1 8 p AlignL (Font Helvetica Regular 13) (220, 220, 220),
                   Cell (x1 + w1) yy w2 8 hl AlignL (Font Helvetica Bold 13) (254, 202, 87),
                   Cell (x1 + w1 + w2) yy w3 8 s AlignL (Font Helvetica Regular 13)
                     (220, 220, 220)]"
    if "count_nonoverlap hl text = 1"
  proof -
    from that obtain p s where ps: "split_from hl [] text = [p, s]" and t: "text = p @ hl @ s"
      by (rule count_one_split)
    from bullet_spans[OF os assms(2) ps, of cw x] obtain c' x1 yy w1 w2 w3 where
      "bullet cw text x None (Some hl) c1 = Inr c'"
      "butlast (pages c') = butlast (pages c1)"
      "cur_draws c' = cur_draws c1 @
         [Ellipse x (cur_y c1 + 3) 4 4 F (255, 107, 107) (draw_color c1),
          Cell x1 yy w1 8 p AlignL (Font Helvetica Regular 13) (220, 220, 220),
          Cell (x1 + w1) yy w2 8 hl AlignL (Font Helvetica Bold 13) (254, 202, 87),
          Cell (x1 + w1 + w2) yy w3 8 s AlignL (Font Helvetica Regular 13) (220, 220, 220)]"
      by blast
    then show ?thesis using t unfolding via cd dc bl by blast
  qed
  have other: "bullet cw text x y (Some hl) c = bullet cw text x y None c
           \<and> (\<exists>c' ey x1 yy w1. bullet cw text x y None c = Inr c'
                \<and> butlast (pages c') = butlast (pages c)
                \<and> cur_draws c' = cur_draws c @
                    [Ellipse x ey 4 4 F (255, 107, 107) (draw_color c),
                     Cell x1 yy w1 8 text AlignL (Font Helvetica Regular 13) (220, 220, 220)])"
    if "count_nonoverlap hl text \<noteq> 1"
  proof -
    from bullet_plain[OF os, of cw "text" x] obtain c' where
      "bullet cw text x None None c1 = Inr c'"
      "butlast (pages c') = butlast (pages c1)"
      "cur_draws c' = cur_draws c1 @
         [Ellipse x (cur_y c1 + 3) 4 4 F (255, 107, 107) (draw_color c1),
          Cell (from_edge (page_w c1) (x + 8)) (from_edge (page_h c1) (cur_y c1))
            (page_w c1 - r_margin c1 - from_edge (page_w c1) (x + 8)) 8 text AlignL
            (Font Helvetica Regular 13) (220, 220, 220)]"
      by blast
    then have "\<exists>c' ey x1 yy w1. bullet cw text x y None c = Inr c'
                \<and> butlast (pages c') = butlast (pages c)
                \<and> cur_draws c' = cur_draws c @
                    [Ellipse x ey 4 4 F (255, 107, 107) (draw_color c),
                     Cell x1 yy w1 8 text AlignL (Font Helvetica Regular 13) (220, 220, 220)]"
      unfolding via cd dc bl by blast
    with bullet_fallback[OF assms(2) that] show ?thesis by simp
  qed
  show ?thesis
    apply (intro conjI impI)
        apply (erule one)
       apply (erule other[THEN conjunct1])
      apply (erule other[THEN conjunct2])
     apply (erule occurrences_one[OF assms(2)])
    apply (erule occurrences_zero)
    done
qed

theorem bullet_highlight_nonoverlap_witness:
  "on_slide (add_page SlidePDF_init) \<and> ''fees'' \<noteq> []
   \<and> count_nonoverlap ''fees'' ''Bounded fees: 0.25%'' = 1
   \<and> (\<exists>c' p s ey x1 yy w1 w2 w3.
         bullet sample_metrics ''Bounded fees: 0.25%'' 25 None (Some ''fees'')
           (add_page SlidePDF_init) = Inr c'
         \<and> ''Bounded fees: 0.25%'' = p @ ''fees'' @ s
         \<and> butlast (pages c') = butlast (pages (add_page SlidePDF_init))
         \<and> cur_draws c' = cur_draws (add_page SlidePDF_init) @
             [Ellipse 25 ey 4 4 F (255, 107, 107) (draw_color (add_page SlidePDF_init)),
              Cell x1 yy w1 8 p AlignL (Font Helvetica Regular 13) (220, 220, 220),
              Cell (x1 + w1) yy w2 8 ''fees'' AlignL (Font Helvetica Bold 13) (254, 202, 87),
              Cell (x1 + w1 + w2) yy w3 8 s AlignL (Font Helvetica Regular 13)
                (220, 220, 220)])
   \<and> count_nonoverlap ''fee'' ''Bounded fees: 0.25% fee'' = 2
   \<and> bullet sample_metrics ''Bounded fees: 0.25% fee'' 25 None (Some ''fee'')
        (add_page SlidePDF_init)
      = bullet sample_metrics ''Bounded fees: 0.25% fee'' 25 None None (add_page SlidePDF_init)"
proof -
  have ne: "''fees'' \<noteq> []" "''fee'' \<noteq> []" by simp_all
  have c1: "count_nonoverlap ''fees'' ''Bounded fees: 0.25%'' = 1" by simp
  have c2: "count_nonoverlap ''fee'' ''Bounded fees: 0.25% fee'' = 2" by simp
  then have c2': "count_nonoverlap ''fee'' ''Bounded fees: 0.25% fee'' \<noteq> 1" by simp
  note a = bullet_highlight_nonoverlap[OF on_slide_start ne(1),
      of "''Bounded fees: 0.25%''" sample_metrics 25 None,
      THEN conjunct1, THEN mp, OF c1]
  note b = bullet_highlight_nonoverlap[OF on_slide_start ne(2),
      of "''Bounded fees: 0.25% fee''" sample_metrics 25 None,
      THEN conjunct2, THEN conjunct1, THEN mp, OF c2', THEN conjunct1]
  from on_slide_start ne(1) c1 a c2 b show ?thesis by (intro conjI)
qed

section \<open>The chip\<close>

text \<open>Claim C10 fails on the code: \<^verbatim>\<open>tag\<close> calls \<^verbatim>\<open>get_string_width\<close> before it
  sets the chip's font, so the rectangle is as wide as the text in the font left by the
  caller plus 12, while the text is then drawn in Helvetica regular 9 pt. What the code
  does on a slide: the returned width is the rectangle's width plus 5, the rectangle's
  width is the width in the caller's font plus 12; after an 18 pt Helvetica regular font,
  as in the first chip of slide 1, that is twice the rendered width plus 12.\<close>

theorem tag_rect_width_from_previous_font:
  assumes "on_slide c" "font c = Some (Font fam sty sz)"
  shows "(\<exists>c'. tag cw text x y c = Inr (c', string_width cw (Font fam sty sz) text + 12 + 5)
       \<and> cur_draws c' = cur_draws c @
         [Rect x y (string_width cw (Font fam sty sz) text + 12) 10 DF (80, 40, 40)
            (255, 107, 107),
          Cell (from_edge (page_w c) x) (from_edge (page_h c) (y + 2))
            (cell_width (string_width cw (Font fam sty sz) text + 12)
               (page_w c - r_margin c - from_edge (page_w c) x))
            6 text AlignC (Font Helvetica Regular 9) (255, 150, 150)])
    \<and> string_width cw (Font Helvetica Regular 18) text
        = 2 * string_width cw (Font Helvetica Regular 9) text"
proof -
  from tag_effect[OF assms, of cw "text" x y]
  have "\<exists>c'. tag cw text x y c = Inr (c', string_width cw (Font fam sty sz) text + 12 + 5)
       \<and> cur_draws c' = cur_draws c @
         [Rect x y (string_width cw (Font fam sty sz) text + 12) 10 DF (80, 40, 40)
            (255, 107, 107),
          Cell (from_edge (page_w c) x) (from_edge (page_h c) (y + 2))
            (cell_width (string_width cw (Font fam sty sz) text + 12)
               (page_w c - r_margin c - from_edge (page_w c) x))
            6 text AlignC (Font Helvetica Regular 9) (255, 150, 150)]"
    by blast
  moreover have "string_width cw (Font Helvetica Regular 18) text
        = 2 * string_width cw (Font Helvetica Regular 9) text"
    by (simp add: string_width.simps)
  ultimately show ?thesis by (rule conjI)
qed

theorem tag_rect_width_from_previous_font_witness:
  "on_slide (set_font Helvetica Regular 18 (add_page SlidePDF_init))
   \<and> font (set_font Helvetica Regular 18 (add_page SlidePDF_init))
       = Some (Font Helvetica Regular 18)
   \<and> (\<exists>c'. tag sample_metrics ''Dynamic Fee'' 60 130
              (set_font Helvetica Regular 18 (add_page SlidePDF_init)) = Inr (c', 2077 / 40)
        \<and> cur_draws c' =
           [Rect 60 130 (1877 / 40) 10 DF (80, 40, 40) (255, 107, 107),
            Cell 60 132 (1877 / 40) 6 ''Dynamic Fee'' AlignC (Font Helvetica Regular 9)
              (255, 150, 150)])
   \<and> string_width sample_metrics (Font Helvetica Regular 9) ''Dynamic Fee'' + 12 = 2357 / 80"
proof -
  let ?c = "set_font Helvetica Regular 18 (add_page SlidePDF_init)"
  have os: "on_slide ?c" by (simp add: on_slide_def setter_defs start_defs)
  have f: "font ?c = Some (Font Helvetica Regular 18)" by (simp add: setter_defs)
  have v: "cur_draws ?c = []" "page_w ?c = 297" "page_h ?c = 210" "r_margin ?c = 10"
    by (simp_all add: cur_draws_def setter_defs start_defs)
  have w: "string_width sample_metrics (Font Helvetica Regular 18) ''Dynamic Fee'' = 1397 / 40"
    "string_width sample_metrics (Font Helvetica Regular 9) ''Dynamic Fee'' = 1397 / 80"
    by (simp_all add: string_width.simps sample_metrics_def k_def)
  note t = tag_rect_width_from_previous_font[OF os f, of sample_metrics "''Dynamic Fee''" 60 130,
      THEN conjunct1]
  from t os f show ?thesis by (simp add: v w)
qed

text \<open>Claim C1 fails on the code for the same reason: the returned width is the width of the
  text in the caller's font plus 17, which can be less than the width of the text as it is
  drawn (Helvetica regular 9 pt) plus 12. After a 4 pt Helvetica font this happens for
  every text whose glyph widths sum to more than 360000/127 thousandths.\<close>

theorem tag_returned_width_undershoots:
  assumes "on_slide c" "font c = Some (Font Helvetica Regular 4)"
    and "360000 < 127 * sum_list (map (cw Helvetica Regular) text)"
  shows "\<exists>c' r. tag cw text x y c = Inr (c', r)
     \<and> r < string_width cw (Font Helvetica Regular 9) text + 12"
proof -
  from tag_effect[OF assms(1,2), of cw "text" x y] obtain c' where
    t: "tag cw text x y c = Inr (c', string_width cw (Font Helvetica Regular 4) text + 12 + 5)"
    by blast
  have "(360000::rat) < 127 * of_nat (sum_list (map (cw Helvetica Regular) text))"
    using assms(3) by (metis of_nat_less_iff of_nat_mult of_nat_numeral)
  then have "string_width cw (Font Helvetica Regular 4) text + 12 + 5
      < string_width cw (Font Helvetica Regular 9) text + 12"
    by (simp add: string_width.simps k_def)
  with t show ?thesis by blast
qed

theorem tag_returned_width_undershoots_witness:
  "on_slide (set_font Helvetica Regular 4 (add_page SlidePDF_init))
   \<and> font (set_font Helvetica Regular 4 (add_page SlidePDF_init))
       = Some (Font Helvetica Regular 4)
   \<and> 360000 < 127 * sum_list (map (sample_metrics Helvetica Regular) ''Dynamic Fee'')
   \<and> (\<exists>c' r. tag sample_metrics ''Dynamic Fee'' 60 130
                (set_font Helvetica Regular 4 (add_page SlidePDF_init)) = Inr (c', r)
        \<and> r < string_width sample_metrics (Font Helvetica Regular 9) ''Dynamic Fee'' + 12)"
proof -
  let ?c = "set_font Helvetica Regular 4 (add_page SlidePDF_init)"
  have os: "on_slide ?c" by (simp add: on_slide_def setter_defs start_defs)
  have f: "font ?c = Some (Font Helvetica Regular 4)" by (simp add: setter_defs)
  have m: "360000 < 127 * sum_list (map (sample_metrics Helvetica Regular) ''Dynamic Fee'')"
    by (simp add: sample_metrics_def)
  from os f m
    tag_returned_width_undershoots[of ?c sample_metrics "''Dynamic Fee''" 60 130, OF os f m]
  show ?thesis by (intro conjI)
qed

text \<open>What does hold of the chips: on a slide, a run of \<^verbatim>\<open>x += pdf.tag(t, x, y)\<close>
  returns normally and draws one rectangle per text; the first starts at the initial
  \<^verbatim>\<open>x\<close>, each is wider than 0, and each next one starts exactly 5 units right of the
  previous one's right edge. So no two rectangles overlap.\<close>

theorem tag_loop_gapped:
  assumes "on_slide c" "font c = Some (Font fam sty sz)" "0 \<le> sz"
  shows "\<exists>c' xe ds. tag_loop cw ts x y c = Inr (c', xe)
     \<and> cur_draws c' = cur_draws c @ ds
     \<and> length (chip_spans ds) = length ts
     \<and> gapped 5 x (chip_spans ds)"
  using assms
proof (induction ts arbitrary: c x fam sty sz)
  case Nil
  then show ?case by simp
next
  case (Cons t ts)
  let ?w = "string_width cw (Font fam sty sz) t + 12"
  let ?d = "[Rect x y ?w 10 DF (80, 40, 40) (255, 107, 107),
          Cell (from_edge (page_w c) x) (from_edge (page_h c) (y + 2))
            (cell_width ?w (page_w c - r_margin c - from_edge (page_w c) x))
            6 t AlignC (Font Helvetica Regular 9) (255, 150, 150)]"
  from tag_effect[OF Cons.prems(1,2), of cw t x y] obtain c1 where
    t1: "tag cw t x y c = Inr (c1, ?w + 5)" and os: "on_slide c1"
    and f1: "font c1 = Some (Font Helvetica Regular 9)"
    and d1: "cur_draws c1 = cur_draws c @ ?d"
    by blast
  have "(0::rat) \<le> 9" by simp
  from Cons.IH[OF os f1 this, of "x + (?w + 5)"] obtain c' xe ds where
    r: "tag_loop cw ts (x + (?w + 5)) y c1 = Inr (c', xe)"
    and d: "cur_draws c' = cur_draws c1 @ ds"
    and l: "length (chip_spans ds) = length ts"
    and g: "gapped 5 (x + (?w + 5)) (chip_spans ds)"
    by blast
  have pos: "0 < ?w" using string_width_nonneg[OF Cons.prems(3), of cw fam sty t] by linarith
  have "tag_loop cw (t # ts) x y c = Inr (c', xe)" using t1 r by simp
  moreover have "cur_draws c' = cur_draws c @ (?d @ ds)" using d d1 by simp
  moreover have "length (chip_spans (?d @ ds)) = length (t # ts)" using l by simp
  moreover have "gapped 5 x (chip_spans (?d @ ds))" using g pos by (simp add: add.assoc)
  ultimately show ?case by blast
qed

theorem tag_loop_gapped_witness:
  "on_slide (set_font Helvetica Regular 18 (add_page SlidePDF_init))
   \<and> font (set_font Helvetica Regular 18 (add_page SlidePDF_init))
       = Some (Font Helvetica Regular 18)
   \<and> (0::rat) \<le> 18
   \<and> (\<exists>c' xe ds. tag_loop sample_metrics [''Dynamic Fee'', ''Oracle''] 60 130
                    (set_font Helvetica Regular 18 (add_page SlidePDF_init)) = Inr (c', xe)
        \<and> cur_draws c' = cur_draws (set_font Helvetica Regular 18 (add_page SlidePDF_init)) @ ds
        \<and> length (chip_spans ds) = length [''Dynamic Fee'', ''Oracle'']
        \<and> gapped 5 60 (chip_spans ds))"
proof -
  let ?c = "set_font Helvetica Regular 18 (add_page SlidePDF_init)"
  have os: "on_slide ?c" by (simp add: on_slide_def setter_defs start_defs)
  have f: "font ?c = Some (Font Helvetica Regular 18)" by (simp add: setter_defs)
  have z: "(0::rat) \<le> 18" by simp
  from os f z tag_loop_gapped[OF os f z, of sample_metrics "[''Dynamic Fee'', ''Oracle'']" 60 130]
  show ?thesis by (intro conjI)
qed

section \<open>The ten slides\<close>

lemma cells_below_ok:
  assumes "pages c \<noteq> []" "\<not> auto_page_break c" "font c = Some f" "w \<noteq> 0"
  shows "cells_below w h ls c = Inr
     (c\<lparr>pages := butlast (pages c) @
          [(last (pages c))\<lparr>draws := draws (last (pages c)) @
             line_cells (cur_x c) (cur_y c) w h f (text_color c) ls\<rparr>],
        cur_y := cur_y c + h * of_nat (length ls)\<rparr>)"
  using assms
proof (induction ls arbitrary: c)
  case Nil
  then show ?case by simp
next
  case (Cons l ls)
  let ?c1 = "(emit (Cell (cur_x c) (cur_y c) w h l AlignL f (text_color c)) c)\<lparr>cur_y := cur_y c + h\<rparr>"
  have c1: "cell w h l AlignL Below c = Inr ?c1"
    using Cons.prems by (simp add: cell_ok Let_def)
  have "pages ?c1 \<noteq> []" "\<not> auto_page_break ?c1" "font ?c1 = Some f"
    using Cons.prems by (simp_all add: emit_def)
  from Cons.IH[OF this Cons.prems(4)] c1 show ?case
    by (simp add: emit_def algebra_simps)
qed

lemma multi_cell_ok:
  assumes "pages c \<noteq> []" "\<not> auto_page_break c" "font c = Some f" "w \<noteq> 0"
  shows "multi_cell lb w h txt c = Inr
     (c\<lparr>pages := butlast (pages c) @
          [(last (pages c))\<lparr>draws := draws (last (pages c)) @
             line_cells (cur_x c) (cur_y c) w h f (text_color c) (lb f w txt)\<rparr>],
        cur_y := cur_y c + h * of_nat (length (lb f w txt)), cur_x := l_margin c\<rparr>)"
  using assms by (simp add: multi_cell_def cells_below_ok)

lemma find_headline_lines [simp]:
  "find is_headline (line_cells x y w h (Font fam Regular sz) col ls @ ds) = find is_headline ds"
  by (induction ls arbitrary: y) auto

lemma cell_width_chip [simp]:
  "0 \<le> sz \<Longrightarrow> cell_width (string_width cw (Font fam sty sz) s + 12) a
     = string_width cw (Font fam sty sz) s + 12"
  using string_width_plus_pos[of sz cw fam sty s] by simp

lemma str_small:
  "str 1 = ''1''" "str 2 = ''2''" "str 3 = ''3''" "str 4 = ''4''" "str 5 = ''5''"
  "str 6 = ''6''" "str 7 = ''7''" "str 8 = ''8''" "str 9 = ''9''" "str 10 = ''10''"
  by code_simp+

lemmas composer_defs = add_slide_def slide_number_def title_text_def subtitle_text_def
  heading_def body_text_def box_def fee_row_def stat_box_def code_box_def tag_def tags_def
  bullet_def ok_def bg_default_def

lemmas run_defs = composer_defs setter_defs add_page_def rect_def ellipse_def emit_def
  get_string_width_def cell_ok multi_cell_ok Let_def

lemmas info_defs = page_info_def headline_def page_label_def str_small

lemma slide1_page:
  assumes "\<not> auto_page_break c" "page_w c = 297" "page_h c = 210"
  shows "\<exists>c'. slide1 cw c = Inr c'
     \<and> map page_info (pages c') =
         map page_info (pages c) @ [(297, 210, Some ''Sentiment Fee Hook'', Some ''1'')]
     \<and> \<not> auto_page_break c' \<and> page_w c' = 297 \<and> page_h c' = 210"
  using assms by (simp add: slide1_def run_defs info_defs)

lemma slide2_page:
  assumes "\<not> auto_page_break c" "page_w c = 297" "page_h c = 210"
  shows "\<exists>c'. slide2 lb c = Inr c'
     \<and> map page_info (pages c') =
         map page_info (pages c) @ [(297, 210, Some ''The Problem'', Some ''2'')]
     \<and> \<not> auto_page_break c' \<and> page_w c' = 297 \<and> page_h c' = 210"
  using assms by (simp add: slide2_def run_defs info_defs)

lemma slide3_page:
  assumes "\<not> auto_page_break c" "page_w c = 297" "page_h c = 210"
  shows "\<exists>c'. slide3 lb c = Inr c'
     \<and> map page_info (pages c') =
         map page_info (pages c) @ [(297, 210, Some ''Our Solution'', Some ''3'')]
     \<and> \<not> auto_page_break c' \<and> page_w c' = 297 \<and> page_h c' = 210"
  using assms by (simp add: slide3_def run_defs info_defs)

lemma slide4_page:
  assumes "\<not> auto_page_break c" "page_w c = 297" "page_h c = 210"
  shows "\<exists>c'. slide4 c = Inr c'
     \<and> map page_info (pages c') =
         map page_info (pages c) @ [(297, 210, Some ''Architecture'', Some ''4'')]
     \<and> \<not> auto_page_break c' \<and> page_w c' = 297 \<and> page_h c' = 210"
  using assms by (simp add: slide4_def run_defs info_defs)

lemma slide5_page:
  assumes "\<not> auto_page_break c" "page_w c = 297" "page_h c = 210"
  shows "\<exists>c'. slide5 lb c = Inr c'
     \<and> map page_info (pages c') =
         map page_info (pages c) @ [(297, 210, Some ''Sentiment Data Sources'', Some ''5'')]
     \<and> \<not> auto_page_break c' \<and> page_w c' = 297 \<and> page_h c' = 210"
  using assms by (simp add: slide5_def run_defs info_defs left_items_def right_items_def)

lemma slide6_page:
  assumes "\<not> auto_page_break c" "page_w c = 297" "page_h c = 210"
  shows "\<exists>c'. slide6 cw c = Inr c'
     \<and> map page_info (pages c') =
         map page_info (pages c) @ [(297, 210, Some ''Security & Anti-Manipulation'', Some ''6'')]
     \<and> \<not> auto_page_break c' \<and> page_w c' = 297 \<and> page_h c' = 210"
  using assms by (simp add: slide6_def run_defs info_defs)

lemma slide7_page:
  assumes "\<not> auto_page_break c" "page_w c = 297" "page_h c = 210"
  shows "\<exists>c'. slide7 cw c = Inr c'
     \<and> map page_info (pages c') =
         map page_info (pages c) @ [(297, 210, Some ''Tech Stack'', Some ''7'')]
     \<and> \<not> auto_page_break c' \<and> page_w c' = 297 \<and> page_h c' = 210"
  using assms by (simp add: slide7_def run_defs info_defs)

lemma slide8_page:
  assumes "\<not> auto_page_break c" "page_w c = 297" "page_h c = 210"
  shows "\<exists>c'. slide8 c = Inr c'
     \<and> map page_info (pages c') =
         map page_info (pages c) @ [(297, 210, Some ''Decentralization Roadmap'', Some ''8'')]
     \<and> \<not> auto_page_break c' \<and> page_w c' = 297 \<and> page_h c' = 210"
  using assms by (simp add: slide8_def run_defs info_defs)

lemma slide9_page:
  assumes "\<not> auto_page_break c" "page_w c = 297" "page_h c = 210"
  shows "\<exists>c'. slide9 c = Inr c'
     \<and> map page_info (pages c') =
         map page_info (pages c) @ [(297, 210, Some ''Quick Start'', Some ''9'')]
     \<and> \<not> auto_page_break c' \<and> page_w c' = 297 \<and> page_h c' = 210"
  using assms by (simp add: slide9_def run_defs info_defs)

lemma slide10_page:
  assumes "\<not> auto_page_break c" "page_w c = 297" "page_h c = 210"
  shows "\<exists>c'. slide10 cw c = Inr c'
     \<and> map page_info (pages c') =
         map page_info (pages c) @ [(297, 210, Some ''Thank You'', Some ''10'')]
     \<and> \<not> auto_page_break c' \<and> page_w c' = 297 \<and> page_h c' = 210"
  using assms by (simp add: slide10_def run_defs info_defs)

text \<open>Claim C3. For every glyph table and every line breaking, the run returns normally with
  a document of exactly ten pages, each 297 x 210; in order their headlines are the title,
  problem, solution, architecture, data sources, security, tech stack, roadmap, quick start
  and thank-you slides' and their labels the numbers 1 to 10; automatic page breaks are
  off at the end, as \<^verbatim>\<open>SlidePDF.__init__\<close> set them.\<close>

theorem generate_ten_pages:
  "\<exists>c. generate cw lb = Inr c
     \<and> length (pages c) = 10
     \<and> map page_info (pages c) =
         [(297, 210, Some ''Sentiment Fee Hook'', Some ''1''),
          (297, 210, Some ''The Problem'', Some ''2''),
          (297, 210, Some ''Our Solution'', Some ''3''),
          (297, 210, Some ''Architecture'', Some ''4''),
          (297, 210, Some ''Sentiment Data Sources'', Some ''5''),
          (297, 210, Some ''Security & Anti-Manipulation'', Some ''6''),
          (297, 210, Some ''Tech Stack'', Some ''7''),
          (297, 210, Some ''Decentralization Roadmap'', Some ''8''),
          (297, 210, Some ''Quick Start'', Some ''9''),
          (297, 210, Some ''Thank You'', Some ''10'')]
     \<and> \<not> auto_page_break c \<and> page_w c = 297 \<and> page_h c = 210"
proof -
  have i: "\<not> auto_page_break SlidePDF_init" "page_w SlidePDF_init = 297"
    "page_h SlidePDF_init = 210" "pages SlidePDF_init = []"
    by (simp_all add: SlidePDF_init_def set_auto_page_break_def FPDF_init_L_mm_A4_def)
  from slide1_page[OF i(1) i(2) i(3), of cw] obtain c1 where
    s1: "slide1 cw SlidePDF_init = Inr c1"
    and p1: "map page_info (pages c1) =
         [(297, 210, Some ''Sentiment Fee Hook'', Some ''1'')]"
    and a1: "\<not> auto_page_break c1" and w1: "page_w c1 = 297" and h1: "page_h c1 = 210"
    using i(4) by auto
  from slide2_page[OF a1 w1 h1, of lb] obtain c2 where
    s2: "slide2 lb c1 = Inr c2"
    and p2: "map page_info (pages c2) =
         [(297, 210, Some ''Sentiment Fee Hook'', Some ''1''),
          (297, 210, Some ''The Problem'', Some ''2'')]"
    and a2: "\<not> auto_page_break c2" and w2: "page_w c2 = 297" and h2: "page_h c2 = 210"
    using p1 by auto
  from slide3_page[OF a2 w2 h2, of lb] obtain c3 where
    s3: "slide3 lb c2 = Inr c3"
    and p3: "map page_info (pages c3) =
         [(297, 210, Some ''Sentiment Fee Hook'', Some ''1''),
          (297, 210, Some ''The Problem'', Some ''2''),
          (297, 210, Some ''Our Solution'', Some ''3'')]"
    and a3: "\<not> auto_page_break c3" and w3: "page_w c3 = 297" and h3: "page_h c3 = 210"
    using p2 by auto
  from slide4_page[OF a3 w3 h3] obtain c4 where
    s4: "slide4 c3 = Inr c4"
    and p4: "map page_info (pages c4) =
         [(297, 210, Some ''Sentiment Fee Hook'', Some ''1''),
          (297, 210, Some ''The Problem'', Some ''2''),
          (297, 210, Some ''Our Solution'', Some ''3''),
          (297, 210, Some ''Architecture'', Some ''4'')]"
    and a4: "\<not> auto_page_break c4" and w4: "page_w c4 = 297" and h4: "page_h c4 = 210"
    using p3 by auto
  from slide5_page[OF a4 w4 h4, of lb] obtain c5 where
    s5: "slide5 lb c4 = Inr c5"
    and p5: "map page_info (pages c5) =
         [(297, 210, Some ''Sentiment Fee Hook'', Some ''1''),
          (297, 210, Some ''The Problem'', Some ''2''),
          (297, 210, Some ''Our Solution'', Some ''3''),
          (297, 210, Some ''Architecture'', Some ''4''),
          (297, 210, Some ''Sentiment Data Sources'', Some ''5'')]"
    and a5: "\<not> auto_page_break c5" and w5: "page_w c5 = 297" and h5: "page_h c5 = 210"
    using p4 by auto
  from slide6_page[OF a5 w5 h5, of cw] obtain c6 where
    s6: "slide6 cw c5 = Inr c6"
    and p6: "map page_info (pages c6) =
         [(297, 210, Some ''Sentiment Fee Hook'', Some ''1''),
          (297, 210, Some ''The Problem'', Some ''2''),
          (297, 210, Some ''Our Solution'', Some ''3''),
          (297, 210, Some ''Architecture'', Some ''4''),
          (297, 210, Some ''Sentiment Data Sources'', Some ''5''),
          (297, 210, Some ''Security & Anti-Manipulation'', Some ''6'')]"
    and a6: "\<not> auto_page_break c6" and w6: "page_w c6 = 297" and h6: "page_h c6 = 210"
    using p5 by auto
  from slide7_page[OF a6 w6 h6, of cw] obtain c7 where
    s7: "slide7 cw c6 = Inr c7"
    and p7: "map page_info (pages c7) =
         [(297, 210, Some ''Sentiment Fee Hook'', Some ''1''),
          (297, 210, Some ''The Problem'', Some ''2''),
          (297, 210, Some ''Our Solution'', Some ''3''),
          (297, 210, Some ''Architecture'', Some ''4''),
          (297, 210, Some ''Sentiment Data Sources'', Some ''5''),
          (297, 210, Some ''Security & Anti-Manipulation'', Some ''6''),
          (297, 210, Some ''Tech Stack'', Some ''7'')]"
    and a7: "\<not> auto_page_break c7" and w7: "page_w c7 = 297" and h7: "page_h c7 = 210"
    using p6 by auto
  from slide8_page[OF a7 w7 h7] obtain c8 where
    s8: "slide8 c7 = Inr c8"
    and p8: "map page_info (pages c8) =
         [(297, 210, Some ''Sentiment Fee Hook'', Some ''1''),
          (297, 210, Some ''The Problem'', Some ''2''),
          (297, 210, Some ''Our Solution'', Some ''3''),
          (297, 210, Some ''Architecture'', Some ''4''),
          (297, 210, Some ''Sentiment Data Sources'', Some ''5''),
          (297, 210, Some ''Security & Anti-Manipulation'', Some ''6''),
          (297, 210, Some ''Tech Stack'', Some ''7''),
          (297, 210, Some ''Decentralization Roadmap'', Some ''8'')]"
    and a8: "\<not> auto_page_break c8" and w8: "page_w c8 = 297" and h8: "page_h c8 = 210"
    using p7 by auto
  from slide9_page[OF a8 w8 h8] obtain c9 where
    s9: "slide9 c8 = Inr c9"
    and p9: "map page_info (pages c9) =
         [(297, 210, Some ''Sentiment Fee Hook'', Some ''1''),
          (297, 210, Some ''The Problem'', Some ''2''),
          (297, 210, Some ''Our Solution'', Some ''3''),
          (297, 210, Some ''Architecture'', Some ''4''),
          (297, 210, Some ''Sentiment Data Sources'', Some ''5''),
          (297, 210, Some ''Security & Anti-Manipulation'', Some ''6''),
          (297, 210, Some ''Tech Stack'', Some ''7''),
          (297, 210, Some ''Decentralization Roadmap'', Some ''8''),
          (297, 210, Some ''Quick Start'', Some ''9'')]"
    and a9: "\<not> auto_page_break c9" and w9: "page_w c9 = 297" and h9: "page_h c9 = 210"
    using p8 by auto
  from slide10_page[OF a9 w9 h9, of cw] obtain c10 where
    s10: "slide10 cw c9 = Inr c10"
    and p10: "map page_info (pages c10) =
         [(297, 210, Some ''Sentiment Fee Hook'', Some ''1''),
          (297, 210, Some ''The Problem'', Some ''2''),
          (297, 210, Some ''Our Solution'', Some ''3''),
          (297, 210, Some ''Architecture'', Some ''4''),
          (297, 210, Some ''Sentiment Data Sources'', Some ''5''),
          (297, 210, Some ''Security & Anti-Manipulation'', Some ''6''),
          (297, 210, Some ''Tech Stack'', Some ''7''),
          (297, 210, Some ''Decentralization Roadmap'', Some ''8''),
          (297, 210, Some ''Quick Start'', Some ''9''),
          (297, 210, Some ''Thank You'', Some ''10'')]"
    and a10: "\<not> auto_page_break c10" and w10: "page_w c10 = 297" and h10: "page_h c10 = 210"
    using p9 by auto
  have g: "generate cw lb = Inr c10"
    by (simp add: generate_def s1 s2 s3 s4 s5 s6 s7 s8 s9 s10)
  have "length (map page_info (pages c10)) = 10" by (simp only: p10) simp
  then have l: "length (pages c10) = 10" by simp
  show ?thesis
    by (rule exI[of _ c10]) (intro conjI g l p10 a10 w10 h10)
qed

text \<open>Why \<^verbatim>\<open>SlidePDF.__init__\<close> turns automatic page breaks off: on a document that
  still has them on, the page-number cell at y = 195 crosses the break trigger at 190 and
  starts a second page.\<close>

theorem slide_number_breaks_page_when_auto:
  "map_sum id (map draws \<circ> pages) (slide_number 1 (add_page FPDF_init_L_mm_A4))
     = Inr [[], [Cell 280 10 10 10 ''1'' AlignR (Font Helvetica Regular 10) (150, 150, 150)]]"
  by (simp add: slide_number_def cell_def setter_defs emit_def add_page_def
      FPDF_init_L_mm_A4_def Let_def str_small)

end
